theory Spec2Isabelle
  imports Complex_Main
begin

section \<open>The PLATE-VS client and its bulk downloader\<close>

text \<open>
  The development embeds two Python modules: \<^verbatim>\<open>platevs_client.py\<close> (the class
  \<^verbatim>\<open>PlateVSClient\<close>) and \<^verbatim>\<open>download_all_data.py\<close> (the function \<^verbatim>\<open>main\<close>).

  The program talks to a web server, writes files, prints and sleeps. All of that is made
  explicit: a \<open>world\<close> holds the file system, the number of HTTP requests issued so far and
  the trace of every effect in the order the program performs it. The server is a function
  \<open>net\<close> from the number of the request and the request itself to what
  \<^verbatim>\<open>session.get\<close> does with it: it raises an exception of the class
  \<^verbatim>\<open>requests.exceptions.RequestException\<close>, or it returns the final response (the
  library has followed the redirects by then). The server may answer the same request
  differently at different times.

  Python floats (the thresholds and the pauses) are only compared, passed on and formatted,
  so they are reals here; how Python formats a float in an f-string is the parameter
  \<open>fmt\<close>. The elapsed wall-clock time of the run is not modelled. A file write is a total
  update of the file system: errors of the operating system are outside this model.
\<close>

subsection \<open>Data\<close>

type_synonym bytes = "char list"

text \<open>\<^verbatim>\<open>self.output_dir / filename\<close>: a directory and a file name in it.\<close>

datatype path = Path (parent: string) (name: string)

datatype param = PFloat real | PInt int

text \<open>The arguments of one \<^verbatim>\<open>session.get\<close> call.\<close>

datatype request =
  Request (url: string) (params: "(string \<times> param) list") (req_timeout: int)
    (allow_redirects: bool)

text \<open>The subclasses of \<^verbatim>\<open>requests.exceptions.RequestException\<close>.\<close>

datatype request_exception = ConnectionError | Timeout | TooManyRedirects | HTTPError nat

datatype outcome = Raised request_exception | Response (status_code: nat) (content: bytes)

text \<open>One constructor for each \<^verbatim>\<open>print\<close> statement, with the values it interpolates.\<close>

datatype msg =
    Rule nat
  | BlankRule nat
  | Title
  | OutputDirectory string
  | Thresholds "real list"
  | QcovLevels "int list"
  | CheckingStatus
  | NotReachable
  | Phase1
  | ProcessingQcov int
  | DownloadingCsv real
  | Done
  | Failed
  | Phase2
  | DownloadingSdf real
  | DownloadComplete
  | TimeElapsed
  | CsvsDownloaded nat nat
  | SdfsDownloaded nat nat
  | DataSavedTo string
  | WarnQcov int "int list"
  | DownloadedCsv path
  | ErrorCsv request_exception
  | DownloadedSdf path
  | ErrorSdf request_exception

datatype event =
    Get request
  | Sleep real
  | Mkdir string
  | Write path bytes
  | Print msg

record world =
  nreq :: nat
  trace :: "event list"
  fs :: "path \<rightharpoonup> bytes"

type_synonym net = "nat \<Rightarrow> request \<Rightarrow> outcome"

record client =
  timeout :: int
  output_dir :: string

subsection \<open>Effects\<close>

definition emit :: "event \<Rightarrow> world \<Rightarrow> world" where
  "emit e w = w\<lparr>trace := trace w @ [e]\<rparr>"

definition print :: "msg \<Rightarrow> world \<Rightarrow> world" where
  "print m w = emit (Print m) w"

fun print_all :: "msg list \<Rightarrow> world \<Rightarrow> world" where
  "print_all [] w = w"
| "print_all (m # ms) w = print_all ms (print m w)"

definition sleep :: "real \<Rightarrow> world \<Rightarrow> world" where
  "sleep d w = emit (Sleep d) w"

text \<open>\<^verbatim>\<open>with open(filepath, 'wb') as f: f.write(data)\<close>: the file is created or truncated.\<close>

definition write_file :: "path \<Rightarrow> bytes \<Rightarrow> world \<Rightarrow> world" where
  "write_file p data w = emit (Write p data) (w\<lparr>fs := (fs w)(p \<mapsto> data)\<rparr>)"

text \<open>\<^verbatim>\<open>self.session.get(url, params=..., timeout=...)\<close>: one request, one outcome.\<close>

definition session_get :: "net \<Rightarrow> request \<Rightarrow> world \<Rightarrow> outcome \<times> world" where
  "session_get net r w = (net (nreq w) r, emit (Get r) (w\<lparr>nreq := Suc (nreq w)\<rparr>))"

text \<open>
  \<^verbatim>\<open>response.raise_for_status()\<close> of the requests library: it raises
  \<^verbatim>\<open>HTTPError\<close> for a client error (400 to 499) or a server error (500 to 599) and
  returns for every other status code.
\<close>

definition raise_for_status :: "nat \<Rightarrow> request_exception + unit" where
  "raise_for_status sc =
     (if 400 \<le> sc \<and> sc < 500 then Inl (HTTPError sc)
      else if 500 \<le> sc \<and> sc < 600 then Inl (HTTPError sc)
      else Inr ())"

subsection \<open>Formatting an integer\<close>

definition digit_char :: "nat \<Rightarrow> char" where
  "digit_char d = ''0123456789'' ! d"

fun digits :: "nat \<Rightarrow> string" where
  "digits n = (if n < 10 then [digit_char n] else digits (n div 10) @ [digit_char (n mod 10)])"

declare digits.simps [simp del]

definition str_int :: "int \<Rightarrow> string" where
  "str_int i = (if i < 0 then CHR ''-'' # digits (nat (- i)) else digits (nat i))"

subsection \<open>The client\<close>

definition BASE_URL :: string where
  "BASE_URL = ''https://www.drugbench.org''"

definition API_URL :: string where
  "API_URL = BASE_URL @ ''/api''"

definition QCOV_LEVELS :: "int list" where
  "QCOV_LEVELS = [50, 70, 95, 100]"

text \<open>\<^verbatim>\<open>PlateVSClient.__init__\<close>: the output directory is created if it is missing.\<close>

definition PlateVSClient_init :: "int \<Rightarrow> string \<Rightarrow> world \<Rightarrow> client \<times> world" where
  "PlateVSClient_init tmo dir w = (\<lparr>timeout = tmo, output_dir = dir\<rparr>, emit (Mkdir dir) w)"

definition csv_request :: "client \<Rightarrow> real \<Rightarrow> int \<Rightarrow> request" where
  "csv_request c similarity_threshold qcov_level =
     Request (API_URL @ ''/similarity-matrix/download-uniprot'')
       [(''threshold'', PFloat similarity_threshold), (''qcov_level'', PInt qcov_level)]
       (timeout c) True"

definition csv_filepath :: "(real \<Rightarrow> string) \<Rightarrow> client \<Rightarrow> real \<Rightarrow> int \<Rightarrow> path" where
  "csv_filepath fmt c similarity_threshold qcov_level =
     Path (output_dir c)
       (''similarity_matrix_qcov'' @ str_int qcov_level @ ''_threshold_''
          @ fmt similarity_threshold @ ''.csv'')"

text \<open>The body of the \<^verbatim>\<open>try\<close> block: an exception (\<open>Inl\<close>) ends it at once.\<close>

definition csv_try ::
  "net \<Rightarrow> (real \<Rightarrow> string) \<Rightarrow> client \<Rightarrow> real \<Rightarrow> int \<Rightarrow> world
     \<Rightarrow> (request_exception + path) \<times> world" where
  "csv_try net fmt c similarity_threshold qcov_level w =
     (case session_get net (csv_request c similarity_threshold qcov_level) w of
        (Raised e, w1) \<Rightarrow> (Inl e, w1)
      | (Response sc body, w1) \<Rightarrow>
          (case raise_for_status sc of
             Inl e \<Rightarrow> (Inl e, w1)
           | Inr _ \<Rightarrow>
               (let filepath = csv_filepath fmt c similarity_threshold qcov_level;
                    w2 = write_file filepath body w1;
                    w3 = print (DownloadedCsv filepath) w2
                in (Inr filepath, w3))))"

text \<open>
  \<^verbatim>\<open>download_similarity_matrix_csv\<close>: the warning, then the \<^verbatim>\<open>try\<close> block with its
  handler \<^verbatim>\<open>except requests.exceptions.RequestException\<close>, which returns \<^verbatim>\<open>None\<close>.
\<close>

definition download_similarity_matrix_csv ::
  "net \<Rightarrow> (real \<Rightarrow> string) \<Rightarrow> client \<Rightarrow> real \<Rightarrow> int \<Rightarrow> world \<Rightarrow> path option \<times> world" where
  "download_similarity_matrix_csv net fmt c similarity_threshold qcov_level w =
     (let w0 = (if qcov_level \<notin> set QCOV_LEVELS
                then print (WarnQcov qcov_level QCOV_LEVELS) w else w)
      in case csv_try net fmt c similarity_threshold qcov_level w0 of
           (Inr filepath, w1) \<Rightarrow> (Some filepath, w1)
         | (Inl e, w1) \<Rightarrow> (None, print (ErrorCsv e) w1))"

definition sdf_request :: "client \<Rightarrow> real \<Rightarrow> request" where
  "sdf_request c similarity_threshold =
     Request (API_URL @ ''/similarity-matrix/download-sdf'')
       [(''threshold'', PFloat similarity_threshold)] (timeout c) True"

definition sdf_filepath :: "(real \<Rightarrow> string) \<Rightarrow> client \<Rightarrow> real \<Rightarrow> path" where
  "sdf_filepath fmt c similarity_threshold =
     Path (output_dir c)
       (''similarity_sdf_threshold_'' @ fmt similarity_threshold @ ''.tar.gz'')"

definition sdf_try ::
  "net \<Rightarrow> (real \<Rightarrow> string) \<Rightarrow> client \<Rightarrow> real \<Rightarrow> world
     \<Rightarrow> (request_exception + path) \<times> world" where
  "sdf_try net fmt c similarity_threshold w =
     (case session_get net (sdf_request c similarity_threshold) w of
        (Raised e, w1) \<Rightarrow> (Inl e, w1)
      | (Response sc body, w1) \<Rightarrow>
          (case raise_for_status sc of
             Inl e \<Rightarrow> (Inl e, w1)
           | Inr _ \<Rightarrow>
               (let zip_filepath = sdf_filepath fmt c similarity_threshold;
                    w2 = write_file zip_filepath body w1;
                    w3 = print (DownloadedSdf zip_filepath) w2
                in (Inr zip_filepath, w3))))"

definition download_similarity_sdf ::
  "net \<Rightarrow> (real \<Rightarrow> string) \<Rightarrow> client \<Rightarrow> real \<Rightarrow> world \<Rightarrow> path option \<times> world" where
  "download_similarity_sdf net fmt c similarity_threshold w =
     (case sdf_try net fmt c similarity_threshold w of
        (Inr zip_filepath, w1) \<Rightarrow> (Some zip_filepath, w1)
      | (Inl e, w1) \<Rightarrow> (None, print (ErrorSdf e) w1))"

text \<open>
  \<^verbatim>\<open>check_service_status\<close>: the loop over the dictionary \<^verbatim>\<open>endpoints\<close>, in its
  insertion order; each probe is a request with a timeout of 10 seconds.
\<close>

definition probe_request :: "string \<Rightarrow> request" where
  "probe_request u = Request u [] 10 True"

fun probe_loop ::
  "net \<Rightarrow> (string \<times> string) list \<Rightarrow> (string \<rightharpoonup> bool) \<times> world \<Rightarrow> (string \<rightharpoonup> bool) \<times> world" where
  "probe_loop net [] sw = sw"
| "probe_loop net ((nm, u) # es) (status, w) =
     (case session_get net (probe_request u) w of
        (Response sc body, w1) \<Rightarrow> probe_loop net es (status(nm \<mapsto> (sc = 200)), w1)
      | (Raised e, w1) \<Rightarrow> probe_loop net es (status(nm \<mapsto> False), w1))"

definition endpoints :: "(string \<times> string) list" where
  "endpoints = [(''main'', BASE_URL), (''api'', API_URL @ ''/health'')]"

definition check_service_status :: "net \<Rightarrow> world \<Rightarrow> (string \<rightharpoonup> bool) \<times> world" where
  "check_service_status net w = probe_loop net endpoints (Map.empty, w)"

subsection \<open>The bulk downloader\<close>

text \<open>The body of the inner loop of phase 1: one matrix-CSV task.\<close>

definition csv_task ::
  "net \<Rightarrow> (real \<Rightarrow> string) \<Rightarrow> client \<Rightarrow> int \<Rightarrow> real \<Rightarrow> nat \<times> world \<Rightarrow> nat \<times> world" where
  "csv_task net fmt c qcov threshold cw =
     (case cw of (csv_count, w) \<Rightarrow>
        (case download_similarity_matrix_csv net fmt c threshold qcov
                (print (DownloadingCsv threshold) w) of
           (Some p, w1) \<Rightarrow> (Suc csv_count, sleep (1 / 2) (print Done w1))
         | (None, w1) \<Rightarrow> (csv_count, sleep (1 / 2) (print Failed w1))))"

fun csv_thresholds ::
  "net \<Rightarrow> (real \<Rightarrow> string) \<Rightarrow> client \<Rightarrow> int \<Rightarrow> real list \<Rightarrow> nat \<times> world \<Rightarrow> nat \<times> world" where
  "csv_thresholds net fmt c qcov [] cw = cw"
| "csv_thresholds net fmt c qcov (threshold # ts) cw =
     csv_thresholds net fmt c qcov ts (csv_task net fmt c qcov threshold cw)"

fun csv_phase ::
  "net \<Rightarrow> (real \<Rightarrow> string) \<Rightarrow> client \<Rightarrow> int list \<Rightarrow> real list \<Rightarrow> nat \<times> world \<Rightarrow> nat \<times> world" where
  "csv_phase net fmt c [] ths cw = cw"
| "csv_phase net fmt c (qcov # qs) ths cw =
     csv_phase net fmt c qs ths
       (csv_thresholds net fmt c qcov ths (fst cw, print (ProcessingQcov qcov) (snd cw)))"

text \<open>The body of the loop of phase 2: one archive task.\<close>

definition sdf_task ::
  "net \<Rightarrow> (real \<Rightarrow> string) \<Rightarrow> client \<Rightarrow> real \<Rightarrow> nat \<times> world \<Rightarrow> nat \<times> world" where
  "sdf_task net fmt c threshold cw =
     (case cw of (sdf_count, w) \<Rightarrow>
        (case download_similarity_sdf net fmt c threshold
                (print (DownloadingSdf threshold) w) of
           (Some p, w1) \<Rightarrow> (Suc sdf_count, sleep 1 (print Done w1))
         | (None, w1) \<Rightarrow> (sdf_count, sleep 1 (print Failed w1))))"

fun sdf_phase ::
  "net \<Rightarrow> (real \<Rightarrow> string) \<Rightarrow> client \<Rightarrow> real list \<Rightarrow> nat \<times> world \<Rightarrow> nat \<times> world" where
  "sdf_phase net fmt c [] cw = cw"
| "sdf_phase net fmt c (threshold # ts) cw =
     sdf_phase net fmt c ts (sdf_task net fmt c threshold cw)"

text \<open>
  The body of \<^verbatim>\<open>main\<close>, with its three configuration constants as parameters. The
  \<^verbatim>\<open>return\<close> after the failed check ends the run. \<^verbatim>\<open>not status.get('main')\<close> holds
  when the entry is missing or \<^verbatim>\<open>False\<close>.
\<close>

definition run ::
  "net \<Rightarrow> (real \<Rightarrow> string) \<Rightarrow> string \<Rightarrow> real list \<Rightarrow> int list \<Rightarrow> world \<Rightarrow> world" where
  "run net fmt OUTPUT_DIR THRESHOLDS QCOVS w =
     (let w1 = print_all [Rule 60, Title, Rule 60, OutputDirectory OUTPUT_DIR,
                 Thresholds THRESHOLDS, QcovLevels QCOVS] w
      in case PlateVSClient_init 30 OUTPUT_DIR w1 of (c, w2) \<Rightarrow>
         (case check_service_status net (print CheckingStatus w2) of (status, w3) \<Rightarrow>
            if status ''main'' \<noteq> Some True then print NotReachable w3
            else
              (case csv_phase net fmt c QCOVS THRESHOLDS
                      (0, print_all [BlankRule 40, Phase1, Rule 40] w3) of
                 (csv_count, w4) \<Rightarrow>
                   (case sdf_phase net fmt c THRESHOLDS
                           (0, print_all [BlankRule 40, Phase2, Rule 40] w4) of
                      (sdf_count, w5) \<Rightarrow>
                        print_all [BlankRule 60, DownloadComplete, Rule 60, TimeElapsed,
                          CsvsDownloaded csv_count (length THRESHOLDS * length QCOVS),
                          SdfsDownloaded sdf_count (length THRESHOLDS),
                          DataSavedTo OUTPUT_DIR] w5))))"

definition main :: "net \<Rightarrow> (real \<Rightarrow> string) \<Rightarrow> world \<Rightarrow> world" where
  "main net fmt w =
     run net fmt ''./platevs_full_dataset'' [0.0, 0.1, 0.3, 0.5, 0.7, 0.9] [50, 70, 95, 100] w"

subsection \<open>Notions used in the statements\<close>

text \<open>
  The fetch of a task succeeds when \<^verbatim>\<open>session.get\<close> returns a response and
  \<^verbatim>\<open>raise_for_status\<close> does not raise for its status code.
\<close>

definition fetch_ok :: "outcome \<Rightarrow> bool" where
  "fetch_ok out = (case out of Raised e \<Rightarrow> False | Response sc body \<Rightarrow> \<not> (400 \<le> sc \<and> sc < 600))"

text \<open>
  What the server does with a list of requests issued one after the other, the first of
  them being request number \<open>n\<close>.
\<close>

fun outcomes :: "net \<Rightarrow> nat \<Rightarrow> request list \<Rightarrow> outcome list" where
  "outcomes net n [] = []"
| "outcomes net n (r # rs) = net n r # outcomes net (Suc n) rs"

text \<open>The requests and the sleeps of a trace.\<close>

fun paced :: "event \<Rightarrow> bool" where
  "paced (Get r) = True"
| "paced (Sleep d) = True"
| "paced e = False"

text \<open>The two lines of the summary that show the counters.\<close>

fun is_summary :: "event \<Rightarrow> bool" where
  "is_summary (Print (CsvsDownloaded k n)) = True"
| "is_summary (Print (SdfsDownloaded k n)) = True"
| "is_summary e = False"

text \<open>The requests of a trace, in the order they were issued.\<close>

fun requests_of :: "event list \<Rightarrow> request list" where
  "requests_of [] = []"
| "requests_of (Get r # es) = r # requests_of es"
| "requests_of (e # es) = requests_of es"

text \<open>
  What \<^verbatim>\<open>check_service_status\<close> records for a probe: \<^verbatim>\<open>True\<close> when the response has
  status 200, \<^verbatim>\<open>False\<close> when it has another status or the request raised.
\<close>

definition is_200 :: "outcome \<Rightarrow> bool" where
  "is_200 out = (case out of Raised e \<Rightarrow> False | Response sc body \<Rightarrow> sc = 200)"

text \<open>The two probes of \<^verbatim>\<open>check_service_status\<close>.\<close>

definition main_probe :: request where
  "main_probe = probe_request BASE_URL"

definition api_probe :: request where
  "api_probe = probe_request (API_URL @ ''/health'')"

text \<open>The client that \<^verbatim>\<open>main\<close> creates: the default timeout of 30 seconds.\<close>

definition bulk_client :: "string \<Rightarrow> client" where
  "bulk_client dir = \<lparr>timeout = 30, output_dir = dir\<rparr>"

text \<open>
  The effects of a run up to and including the reachability check: the header, the
  creation of the output directory and the two probes.
\<close>

definition preamble :: "string \<Rightarrow> real list \<Rightarrow> int list \<Rightarrow> event list" where
  "preamble dir ths qs =
     [Print (Rule 60), Print Title, Print (Rule 60), Print (OutputDirectory dir),
      Print (Thresholds ths), Print (QcovLevels qs), Mkdir dir, Print CheckingStatus,
      Get main_probe, Get api_probe]"

text \<open>
  The requests of the matrix-CSV tasks, coverage level by coverage level, and of the
  archive tasks.
\<close>

definition matrix_requests :: "client \<Rightarrow> int list \<Rightarrow> real list \<Rightarrow> request list" where
  "matrix_requests c qs ths = map (\<lambda>(q, t). csv_request c t q) (List.product qs ths)"

definition archive_requests :: "client \<Rightarrow> real list \<Rightarrow> request list" where
  "archive_requests c ths = map (sdf_request c) ths"

text \<open>
  Concrete worlds, servers and a float format for the examples: an empty world, a
  server that answers every request with status 200 and a body, and a format that is
  Python's on the six thresholds of \<^verbatim>\<open>main\<close>.
\<close>

definition w0 :: world where
  "w0 = \<lparr>nreq = 0, trace = [], fs = Map.empty\<rparr>"

definition net_ok :: net where
  "net_ok n r = Response 200 ''a,b''"

definition fmt0 :: "real \<Rightarrow> string" where
  "fmt0 x =
     (if x = 0 then ''0.0'' else if x = 1 / 10 then ''0.1'' else if x = 3 / 10 then ''0.3''
      else if x = 1 / 2 then ''0.5'' else if x = 7 / 10 then ''0.7'' else ''0.9'')"

text \<open>
  The number of matrix-CSV tasks, and of archive tasks, whose fetch succeeds when the
  first of them is request number \<open>n\<close>.
\<close>

definition csv_succeeded :: "net \<Rightarrow> nat \<Rightarrow> client \<Rightarrow> int list \<Rightarrow> real list \<Rightarrow> nat" where
  "csv_succeeded net n c qs ths =
     length (filter fetch_ok (outcomes net n (matrix_requests c qs ths)))"

definition sdf_succeeded :: "net \<Rightarrow> nat \<Rightarrow> client \<Rightarrow> real list \<Rightarrow> nat" where
  "sdf_succeeded net n c ths =
     length (filter fetch_ok (outcomes net n (archive_requests c ths)))"



definition net_down :: net where
  "net_down n r = Raised ConnectionError"

definition net_api_down :: net where
  "net_api_down n r = (if r = api_probe then Response 503 [] else Response 200 ''a,b'')"

text \<open>A server that, after the two probes, answers 200 and 500 in turn.\<close>

definition net_mixed :: net where
  "net_mixed n r = (if n < 2 then Response 200 ''up'' else if even n then Response 200 ''a,b''
                    else Response 500 ''no'')"

text \<open>The file writes of a trace.\<close>

fun is_write :: "event \<Rightarrow> bool" where
  "is_write (Write p data) = True"
| "is_write e = False"

text \<open>
  Servers for the examples: one that answers 304 with an empty body, one that answers 200
  with an empty body, and one whose second answer has another body than its first.
\<close>

definition net_304 :: net where
  "net_304 n r = Response 304 []"

definition net_empty :: net where
  "net_empty n r = Response 200 []"

definition net_twice :: net where
  "net_twice n r = (if n = 0 then Response 200 ''old'' else Response 200 ''new'')"

text \<open>The durations of the sleeps of a trace, in order.\<close>

fun sleeps_of :: "event list \<Rightarrow> real list" where
  "sleeps_of [] = []"
| "sleeps_of (Sleep d # es) = d # sleeps_of es"
| "sleeps_of (e # es) = sleeps_of es"

text \<open>
  What a task writes, given the outcome of its fetch: the body of the response to the file
  of the task, unless the fetch failed.
\<close>

definition write_of :: "outcome \<Rightarrow> path \<Rightarrow> event list" where
  "write_of out p =
     (case out of
        Raised e \<Rightarrow> []
      | Response sc body \<Rightarrow> if 400 \<le> sc \<and> sc < 600 then [] else [Write p body])"

text \<open>
  The writes of a list of tasks, each given by its request and its file, issued one after
  the other, the first of them as request number \<open>n\<close>.
\<close>

fun task_writes :: "net \<Rightarrow> nat \<Rightarrow> (request \<times> path) list \<Rightarrow> event list" where
  "task_writes net n [] = []"
| "task_writes net n ((r, p) # rs) = write_of (net n r) p @ task_writes net (Suc n) rs"

text \<open>The matrix-CSV tasks and the archive tasks of a run, each with its file.\<close>

definition matrix_files ::
  "(real \<Rightarrow> string) \<Rightarrow> client \<Rightarrow> int list \<Rightarrow> real list \<Rightarrow> (request \<times> path) list" where
  "matrix_files fmt c qs ths =
     map (\<lambda>(q, t). (csv_request c t q, csv_filepath fmt c t q)) (List.product qs ths)"

definition archive_files ::
  "(real \<Rightarrow> string) \<Rightarrow> client \<Rightarrow> real list \<Rightarrow> (request \<times> path) list" where
  "archive_files fmt c ths = map (\<lambda>t. (sdf_request c t, sdf_filepath fmt c t)) ths"

text \<open>The paths of the file writes of a trace, in order.\<close>

fun write_paths :: "event list \<Rightarrow> path list" where
  "write_paths [] = []"
| "write_paths (Write p data # es) = p # write_paths es"
| "write_paths (e # es) = write_paths es"

text \<open>The file system after the file writes of a trace have been performed in order.\<close>

fun replay :: "event list \<Rightarrow> (path \<rightharpoonup> bytes) \<Rightarrow> (path \<rightharpoonup> bytes)" where
  "replay [] f = f"
| "replay (Write p data # es) f = replay es (f(p \<mapsto> data))"
| "replay (e # es) f = replay es f"

section \<open>Basic facts about the effects, the downloads and the loops\<close>

lemma requests_of_append [simp]: "requests_of (xs @ ys) = requests_of xs @ requests_of ys"
  by (induction xs rule: requests_of.induct) simp_all

lemma outcomes_append:
  "outcomes net n (xs @ ys) = outcomes net n xs @ outcomes net (n + length xs) ys"
  by (induction xs arbitrary: n) simp_all

lemma length_outcomes [simp]: "length (outcomes net n rs) = length rs"
  by (induction rs arbitrary: n) simp_all

lemma emit_simps [simp]:
  "trace (emit e w) = trace w @ [e]" "nreq (emit e w) = nreq w" "fs (emit e w) = fs w"
  by (simp_all add: emit_def)

lemma print_simps [simp]:
  "trace (print m w) = trace w @ [Print m]" "nreq (print m w) = nreq w" "fs (print m w) = fs w"
  by (simp_all add: print_def)

lemma sleep_simps [simp]:
  "trace (sleep d w) = trace w @ [Sleep d]" "nreq (sleep d w) = nreq w" "fs (sleep d w) = fs w"
  by (simp_all add: sleep_def)

lemma print_all_simps [simp]:
  "trace (print_all ms w) = trace w @ map Print ms" "nreq (print_all ms w) = nreq w"
  "fs (print_all ms w) = fs w"
  by (induction ms arbitrary: w) simp_all

lemma write_file_simps [simp]:
  "trace (write_file p d w) = trace w @ [Write p d]" "nreq (write_file p d w) = nreq w"
  "fs (write_file p d w) = (fs w)(p \<mapsto> d)"
  by (simp_all add: write_file_def)

lemma csv_result:
  "fst (download_similarity_matrix_csv net fmt c t q w) =
     (if fetch_ok (net (nreq w) (csv_request c t q)) then Some (csv_filepath fmt c t q) else None)"
  by (auto simp: download_similarity_matrix_csv_def csv_try_def session_get_def fetch_ok_def
      raise_for_status_def Let_def split: outcome.splits sum.splits prod.splits)

lemma csv_nreq:
  "nreq (snd (download_similarity_matrix_csv net fmt c t q w)) = Suc (nreq w)"
  by (auto simp: download_similarity_matrix_csv_def csv_try_def session_get_def
      raise_for_status_def Let_def split: outcome.splits sum.splits prod.splits)

lemma csv_trace:
  "trace (snd (download_similarity_matrix_csv net fmt c t q w)) =
     trace w @ (if q \<in> set QCOV_LEVELS then [] else [Print (WarnQcov q QCOV_LEVELS)])
       @ [Get (csv_request c t q)]
       @ (case net (nreq w) (csv_request c t q) of
            Raised e \<Rightarrow> [Print (ErrorCsv e)]
          | Response sc body \<Rightarrow>
              if 400 \<le> sc \<and> sc < 600 then [Print (ErrorCsv (HTTPError sc))]
              else [Write (csv_filepath fmt c t q) body, Print (DownloadedCsv (csv_filepath fmt c t q))])"
  by (auto simp: download_similarity_matrix_csv_def csv_try_def session_get_def
      raise_for_status_def Let_def split: outcome.splits sum.splits prod.splits)

lemma csv_fs:
  "fs (snd (download_similarity_matrix_csv net fmt c t q w)) =
     (case net (nreq w) (csv_request c t q) of
        Raised e \<Rightarrow> fs w
      | Response sc body \<Rightarrow>
          if 400 \<le> sc \<and> sc < 600 then fs w else (fs w)(csv_filepath fmt c t q \<mapsto> body))"
  by (auto simp: download_similarity_matrix_csv_def csv_try_def session_get_def
      raise_for_status_def Let_def split: outcome.splits sum.splits prod.splits)

lemma sdf_result:
  "fst (download_similarity_sdf net fmt c t w) =
     (if fetch_ok (net (nreq w) (sdf_request c t)) then Some (sdf_filepath fmt c t) else None)"
  by (auto simp: download_similarity_sdf_def sdf_try_def session_get_def fetch_ok_def
      raise_for_status_def Let_def split: outcome.splits sum.splits prod.splits)

lemma sdf_nreq:
  "nreq (snd (download_similarity_sdf net fmt c t w)) = Suc (nreq w)"
  by (auto simp: download_similarity_sdf_def sdf_try_def session_get_def
      raise_for_status_def Let_def split: outcome.splits sum.splits prod.splits)

lemma sdf_trace:
  "trace (snd (download_similarity_sdf net fmt c t w)) =
     trace w @ [Get (sdf_request c t)]
       @ (case net (nreq w) (sdf_request c t) of
            Raised e \<Rightarrow> [Print (ErrorSdf e)]
          | Response sc body \<Rightarrow>
              if 400 \<le> sc \<and> sc < 600 then [Print (ErrorSdf (HTTPError sc))]
              else [Write (sdf_filepath fmt c t) body, Print (DownloadedSdf (sdf_filepath fmt c t))])"
  by (auto simp: download_similarity_sdf_def sdf_try_def session_get_def
      raise_for_status_def Let_def split: outcome.splits sum.splits prod.splits)

lemma sdf_fs:
  "fs (snd (download_similarity_sdf net fmt c t w)) =
     (case net (nreq w) (sdf_request c t) of
        Raised e \<Rightarrow> fs w
      | Response sc body \<Rightarrow>
          if 400 \<le> sc \<and> sc < 600 then fs w else (fs w)(sdf_filepath fmt c t \<mapsto> body))"
  by (auto simp: download_similarity_sdf_def sdf_try_def session_get_def
      raise_for_status_def Let_def split: outcome.splits sum.splits prod.splits)

lemma csv_task_count:
  "fst (csv_task net fmt c q t cw) =
     fst cw + (if fetch_ok (net (nreq (snd cw)) (csv_request c t q)) then 1 else 0)"
proof -
  obtain n w where cw: "cw = (n, w)" by (cases cw)
  obtain r w1 where d: "download_similarity_matrix_csv net fmt c t q (print (DownloadingCsv t) w) = (r, w1)"
    by (cases "download_similarity_matrix_csv net fmt c t q (print (DownloadingCsv t) w)")
  from csv_result [of net fmt c t q "print (DownloadingCsv t) w"] d
  have "r = (if fetch_ok (net (nreq w) (csv_request c t q)) then Some (csv_filepath fmt c t q) else None)"
    by simp
  then show ?thesis by (simp add: csv_task_def cw d)
qed

lemma csv_task_nreq: "nreq (snd (csv_task net fmt c q t cw)) = Suc (nreq (snd cw))"
proof -
  obtain n w where cw: "cw = (n, w)" by (cases cw)
  obtain r w1 where d: "download_similarity_matrix_csv net fmt c t q (print (DownloadingCsv t) w) = (r, w1)"
    by (cases "download_similarity_matrix_csv net fmt c t q (print (DownloadingCsv t) w)")
  from csv_nreq [of net fmt c t q "print (DownloadingCsv t) w"] d
  have "nreq w1 = Suc (nreq w)" by simp
  then show ?thesis by (simp add: csv_task_def cw d split: option.splits)
qed

lemma csv_task_trace:
  "trace (snd (csv_task net fmt c q t cw)) =
     trace (snd (download_similarity_matrix_csv net fmt c t q (print (DownloadingCsv t) (snd cw))))
       @ [Print (if fetch_ok (net (nreq (snd cw)) (csv_request c t q)) then Done else Failed),
          Sleep (1 / 2)]"
proof -
  obtain n w where cw: "cw = (n, w)" by (cases cw)
  obtain r w1 where d: "download_similarity_matrix_csv net fmt c t q (print (DownloadingCsv t) w) = (r, w1)"
    by (cases "download_similarity_matrix_csv net fmt c t q (print (DownloadingCsv t) w)")
  from csv_result [of net fmt c t q "print (DownloadingCsv t) w"] d
  have "r = (if fetch_ok (net (nreq w) (csv_request c t q)) then Some (csv_filepath fmt c t q) else None)"
    by simp
  then show ?thesis by (simp add: csv_task_def cw d)
qed

lemma csv_task_paced:
  "filter paced (trace (snd (csv_task net fmt c q t cw))) =
     filter paced (trace (snd cw)) @ [Get (csv_request c t q), Sleep (1 / 2)]"
  by (simp add: csv_task_trace csv_trace split: outcome.splits)

lemma csv_task_summary:
  "filter is_summary (trace (snd (csv_task net fmt c q t cw))) = filter is_summary (trace (snd cw))"
  by (simp add: csv_task_trace csv_trace split: outcome.splits)

lemma sdf_task_count:
  "fst (sdf_task net fmt c t cw) =
     fst cw + (if fetch_ok (net (nreq (snd cw)) (sdf_request c t)) then 1 else 0)"
proof -
  obtain n w where cw: "cw = (n, w)" by (cases cw)
  obtain r w1 where d: "download_similarity_sdf net fmt c t (print (DownloadingSdf t) w) = (r, w1)"
    by (cases "download_similarity_sdf net fmt c t (print (DownloadingSdf t) w)")
  from sdf_result [of net fmt c t "print (DownloadingSdf t) w"] d
  have "r = (if fetch_ok (net (nreq w) (sdf_request c t)) then Some (sdf_filepath fmt c t) else None)"
    by simp
  then show ?thesis by (simp add: sdf_task_def cw d)
qed

lemma sdf_task_nreq: "nreq (snd (sdf_task net fmt c t cw)) = Suc (nreq (snd cw))"
proof -
  obtain n w where cw: "cw = (n, w)" by (cases cw)
  obtain r w1 where d: "download_similarity_sdf net fmt c t (print (DownloadingSdf t) w) = (r, w1)"
    by (cases "download_similarity_sdf net fmt c t (print (DownloadingSdf t) w)")
  from sdf_nreq [of net fmt c t "print (DownloadingSdf t) w"] d
  have "nreq w1 = Suc (nreq w)" by simp
  then show ?thesis by (simp add: sdf_task_def cw d split: option.splits)
qed

lemma sdf_task_trace:
  "trace (snd (sdf_task net fmt c t cw)) =
     trace (snd (download_similarity_sdf net fmt c t (print (DownloadingSdf t) (snd cw))))
       @ [Print (if fetch_ok (net (nreq (snd cw)) (sdf_request c t)) then Done else Failed),
          Sleep 1]"
proof -
  obtain n w where cw: "cw = (n, w)" by (cases cw)
  obtain r w1 where d: "download_similarity_sdf net fmt c t (print (DownloadingSdf t) w) = (r, w1)"
    by (cases "download_similarity_sdf net fmt c t (print (DownloadingSdf t) w)")
  from sdf_result [of net fmt c t "print (DownloadingSdf t) w"] d
  have "r = (if fetch_ok (net (nreq w) (sdf_request c t)) then Some (sdf_filepath fmt c t) else None)"
    by simp
  then show ?thesis by (simp add: sdf_task_def cw d)
qed

lemma sdf_task_paced:
  "filter paced (trace (snd (sdf_task net fmt c t cw))) =
     filter paced (trace (snd cw)) @ [Get (sdf_request c t), Sleep 1]"
  by (simp add: sdf_task_trace sdf_trace split: outcome.splits)

lemma sdf_task_summary:
  "filter is_summary (trace (snd (sdf_task net fmt c t cw))) = filter is_summary (trace (snd cw))"
  by (simp add: sdf_task_trace sdf_trace split: outcome.splits)

lemma csv_thresholds_nreq:
  "nreq (snd (csv_thresholds net fmt c q ts cw)) = nreq (snd cw) + length ts"
  by (induction ts arbitrary: cw) (simp_all add: csv_task_nreq)

lemma csv_thresholds_count:
  "fst (csv_thresholds net fmt c q ts cw) =
     fst cw + length (filter fetch_ok (outcomes net (nreq (snd cw)) (map (\<lambda>t. csv_request c t q) ts)))"
  by (induction ts arbitrary: cw) (simp_all add: csv_task_nreq csv_task_count)

lemma csv_thresholds_paced:
  "filter paced (trace (snd (csv_thresholds net fmt c q ts cw))) =
     filter paced (trace (snd cw))
       @ concat (map (\<lambda>t. [Get (csv_request c t q), Sleep (1 / 2)]) ts)"
  by (induction ts arbitrary: cw) (simp_all add: csv_task_paced)

lemma csv_thresholds_summary:
  "filter is_summary (trace (snd (csv_thresholds net fmt c q ts cw))) =
     filter is_summary (trace (snd cw))"
  by (induction ts arbitrary: cw) (simp_all add: csv_task_summary)

lemma csv_phase_nreq:
  "nreq (snd (csv_phase net fmt c qs ths cw)) = nreq (snd cw) + length qs * length ths"
  by (induction qs arbitrary: cw) (simp_all add: csv_thresholds_nreq)

lemma csv_phase_count:
  "fst (csv_phase net fmt c qs ths cw) =
     fst cw + length (filter fetch_ok (outcomes net (nreq (snd cw))
                (map (\<lambda>(q, t). csv_request c t q) (List.product qs ths))))"
  by (induction qs arbitrary: cw)
    (simp_all add: csv_thresholds_nreq csv_thresholds_count outcomes_append comp_def)

lemma csv_phase_paced:
  "filter paced (trace (snd (csv_phase net fmt c qs ths cw))) =
     filter paced (trace (snd cw))
       @ concat (map (\<lambda>(q, t). [Get (csv_request c t q), Sleep (1 / 2)]) (List.product qs ths))"
  by (induction qs arbitrary: cw) (simp_all add: csv_thresholds_paced comp_def)

lemma csv_phase_summary:
  "filter is_summary (trace (snd (csv_phase net fmt c qs ths cw))) =
     filter is_summary (trace (snd cw))"
  by (induction qs arbitrary: cw) (simp_all add: csv_thresholds_summary)

lemma sdf_phase_nreq:
  "nreq (snd (sdf_phase net fmt c ts cw)) = nreq (snd cw) + length ts"
  by (induction ts arbitrary: cw) (simp_all add: sdf_task_nreq)

lemma sdf_phase_count:
  "fst (sdf_phase net fmt c ts cw) =
     fst cw + length (filter fetch_ok (outcomes net (nreq (snd cw)) (map (sdf_request c) ts)))"
  by (induction ts arbitrary: cw) (simp_all add: sdf_task_nreq sdf_task_count)

lemma sdf_phase_paced:
  "filter paced (trace (snd (sdf_phase net fmt c ts cw))) =
     filter paced (trace (snd cw)) @ concat (map (\<lambda>t. [Get (sdf_request c t), Sleep 1]) ts)"
  by (induction ts arbitrary: cw) (simp_all add: sdf_task_paced)

lemma sdf_phase_summary:
  "filter is_summary (trace (snd (sdf_phase net fmt c ts cw))) = filter is_summary (trace (snd cw))"
  by (induction ts arbitrary: cw) (simp_all add: sdf_task_summary)

lemma session_get_simps [simp]:
  "fst (session_get net r w) = net (nreq w) r"
  "nreq (snd (session_get net r w)) = Suc (nreq w)"
  "trace (snd (session_get net r w)) = trace w @ [Get r]"
  "fs (snd (session_get net r w)) = fs w"
  by (simp_all add: session_get_def)

lemma probe_step:
  "probe_loop net ((nm, u) # es) (status, w) =
     probe_loop net es (status(nm \<mapsto> is_200 (net (nreq w) (probe_request u))),
       snd (session_get net (probe_request u) w))"
  by (simp add: session_get_def is_200_def split: outcome.splits)

lemma check_status_result:
  "fst (check_service_status net w) =
     [''main'' \<mapsto> is_200 (net (nreq w) main_probe),
      ''api'' \<mapsto> is_200 (net (Suc (nreq w)) api_probe)]"
  by (simp add: check_service_status_def endpoints_def probe_step main_probe_def api_probe_def
      del: probe_loop.simps(2))

lemma check_status_world:
  "nreq (snd (check_service_status net w)) = nreq w + 2"
  "trace (snd (check_service_status net w)) = trace w @ [Get main_probe, Get api_probe]"
  "fs (snd (check_service_status net w)) = fs w"
  by (simp_all add: check_service_status_def endpoints_def probe_step main_probe_def api_probe_def
      del: probe_loop.simps(2))

lemma check_status_main:
  "(fst (check_service_status net w) ''main'' \<noteq> Some True) = (\<not> is_200 (net (nreq w) main_probe))"
  by (simp add: check_status_result)

lemma run_abort:
  assumes "\<not> is_200 (net (nreq w) main_probe)"
  shows "trace (run net fmt dir ths qs w) = trace w @ preamble dir ths qs @ [Print NotReachable]"
    and "fs (run net fmt dir ths qs w) = fs w"
    and "nreq (run net fmt dir ths qs w) = nreq w + 2"
  using assms
  by (simp_all add: run_def Let_def PlateVSClient_init_def split_beta check_status_main
      check_status_world preamble_def)

lemma run_proceed_paced:
  assumes "is_200 (net (nreq w) main_probe)"
  shows "filter paced (trace (run net fmt dir ths qs w)) =
     filter paced (trace w) @ [Get main_probe, Get api_probe]
       @ concat (map (\<lambda>(q, t). [Get (csv_request (bulk_client dir) t q), Sleep (1 / 2)])
           (List.product qs ths))
       @ concat (map (\<lambda>t. [Get (sdf_request (bulk_client dir) t), Sleep 1]) ths)"
  using assms
  by (simp add: run_def Let_def PlateVSClient_init_def split_beta check_status_main
      check_status_world sdf_phase_paced csv_phase_paced bulk_client_def)

lemma run_proceed_summary:
  assumes "is_200 (net (nreq w) main_probe)"
  shows "filter is_summary (trace (run net fmt dir ths qs w)) =
     filter is_summary (trace w) @
       [Print (CsvsDownloaded
          (length (filter fetch_ok (outcomes net (nreq w + 2)
             (map (\<lambda>(q, t). csv_request (bulk_client dir) t q) (List.product qs ths)))))
          (length ths * length qs)),
        Print (SdfsDownloaded
          (length (filter fetch_ok (outcomes net (nreq w + 2 + length qs * length ths)
             (map (sdf_request (bulk_client dir)) ths))))
          (length ths))]"
  using assms
  by (simp add: run_def Let_def PlateVSClient_init_def split_beta check_status_main
      check_status_world sdf_phase_summary csv_phase_summary sdf_phase_count csv_phase_count
      csv_phase_nreq bulk_client_def)

lemma requests_of_paced: "requests_of (filter paced tr) = requests_of tr"
  by (induction tr rule: requests_of.induct) simp_all

lemma requests_of_pairs:
  "requests_of (concat (map (\<lambda>(q, t). [Get (f q t), Sleep d]) ps)) = map (\<lambda>(q, t). f q t) ps"
  by (induction ps) (simp_all add: split_beta)

lemma requests_of_singles:
  "requests_of (concat (map (\<lambda>t. [Get (f t), Sleep d]) ts)) = map f ts"
  by (induction ts) simp_all

lemma run_requests:
  assumes "is_200 (net (nreq w) main_probe)"
  shows "requests_of (trace (run net fmt dir ths qs w)) =
     requests_of (trace w) @ [main_probe, api_probe]
       @ matrix_requests (bulk_client dir) qs ths @ archive_requests (bulk_client dir) ths"
proof -
  have "requests_of (trace (run net fmt dir ths qs w)) =
        requests_of (filter paced (trace (run net fmt dir ths qs w)))"
    by (simp add: requests_of_paced)
  also have "\<dots> = requests_of (trace w) @ [main_probe, api_probe]
       @ matrix_requests (bulk_client dir) qs ths @ archive_requests (bulk_client dir) ths"
    using assms
    by (simp add: run_proceed_paced requests_of_paced requests_of_pairs requests_of_singles
        matrix_requests_def archive_requests_def)
  finally show ?thesis .
qed

lemma count_list_Pair:
  "count_list (map (Pair a) ths) (q, t) = (if a = q then count_list ths t else 0)"
  by (induction ths) auto

lemma count_list_product:
  "count_list (List.product qs ths) (q, t) = count_list qs q * count_list ths t"
  by (induction qs) (simp_all add: count_list_Pair)

lemma count_list_distinct: "distinct xs \<Longrightarrow> x \<in> set xs \<Longrightarrow> count_list xs x = 1"
  by (induction xs) auto

lemma csv_request_inj:
  "(csv_request c t q = csv_request c t' q') = (t = t' \<and> q = q')"
  by (auto simp: csv_request_def)

lemma count_list_csv_requests:
  "count_list (map (\<lambda>(q, t). csv_request c t q) ps) (csv_request c t q) = count_list ps (q, t)"
  by (induction ps) (auto simp: csv_request_inj)

lemma sdf_request_inj: "(sdf_request c t = sdf_request c t') = (t = t')"
  by (auto simp: sdf_request_def)

lemma count_list_sdf_requests:
  "count_list (map (sdf_request c) ts) (sdf_request c t) = count_list ts t"
  by (induction ts) (auto simp: sdf_request_inj)

lemma product_index:
  assumes "i < length qs" "j < length ths"
  shows "i * length ths + j < length qs * length ths"
    and "List.product qs ths ! (i * length ths + j) = (qs ! i, ths ! j)"
proof -
  have "i * length ths + j < i * length ths + length ths" using assms by simp
  also have "\<dots> = Suc i * length ths" by simp
  also have "\<dots> \<le> length qs * length ths"
    using assms(1) by (intro mult_le_mono1) simp
  finally show lt: "i * length ths + j < length qs * length ths" .
  have "0 < length ths" using assms(2) by (cases ths) simp_all
  then have "(i * length ths + j) div length ths = i" "(i * length ths + j) mod length ths = j"
    using assms(2) by simp_all
  then show "List.product qs ths ! (i * length ths + j) = (qs ! i, ths ! j)"
    using lt by (simp add: product_nth)
qed

lemma length_matrix_requests [simp]:
  "length (matrix_requests c qs ths) = length qs * length ths"
  by (simp add: matrix_requests_def)

lemma length_archive_requests [simp]: "length (archive_requests c ths) = length ths"
  by (simp add: archive_requests_def)


lemma csv_succeeded_le: "csv_succeeded net n c qs ths \<le> length ths * length qs"
proof -
  have "csv_succeeded net n c qs ths \<le> length (outcomes net n (matrix_requests c qs ths))"
    unfolding csv_succeeded_def by (rule length_filter_le)
  then show ?thesis by (simp add: mult.commute)
qed

lemma sdf_succeeded_le: "sdf_succeeded net n c ths \<le> length ths"
proof -
  have "sdf_succeeded net n c ths \<le> length (outcomes net n (archive_requests c ths))"
    unfolding sdf_succeeded_def by (rule length_filter_le)
  then show ?thesis by simp
qed

lemma run_summary:
  assumes "is_200 (net (nreq w) main_probe)"
  shows "filter is_summary (trace (run net fmt dir ths qs w)) =
     filter is_summary (trace w) @
       [Print (CsvsDownloaded (csv_succeeded net (nreq w + 2) (bulk_client dir) qs ths)
          (length ths * length qs)),
        Print (SdfsDownloaded
          (sdf_succeeded net (nreq w + 2 + length qs * length ths) (bulk_client dir) ths)
          (length ths))]"
  using assms
  by (simp add: run_proceed_summary csv_succeeded_def sdf_succeeded_def matrix_requests_def
      archive_requests_def)



lemma probe_not_csv [simp]:
  "main_probe \<noteq> csv_request c t q" "api_probe \<noteq> csv_request c t q"
  "csv_request c t q \<noteq> main_probe" "csv_request c t q \<noteq> api_probe"
  by (simp_all add: main_probe_def api_probe_def probe_request_def csv_request_def)

lemma probe_not_sdf [simp]:
  "main_probe \<noteq> sdf_request c t" "api_probe \<noteq> sdf_request c t"
  "sdf_request c t \<noteq> main_probe" "sdf_request c t \<noteq> api_probe"
  by (simp_all add: main_probe_def api_probe_def probe_request_def sdf_request_def)

lemma probes_differ [simp]: "main_probe \<noteq> api_probe" "api_probe \<noteq> main_probe"
  by (simp_all add: main_probe_def api_probe_def probe_request_def BASE_URL_def API_URL_def)

lemma probe_not_task [simp]:
  "main_probe \<notin> set (matrix_requests c qs ths)" "api_probe \<notin> set (matrix_requests c qs ths)"
  "main_probe \<notin> set (archive_requests c ths)" "api_probe \<notin> set (archive_requests c ths)"
  by (auto simp: matrix_requests_def archive_requests_def)

lemma requests_of_preamble [simp]:
  "requests_of (preamble dir ths qs) = [main_probe, api_probe]"
  by (simp add: preamble_def)

lemma summary_preamble [simp]: "filter is_summary (preamble dir ths qs) = []"
  by (simp add: preamble_def)

lemma paced_preamble [simp]:
  "filter paced (preamble dir ths qs) = [Get main_probe, Get api_probe]"
  by (simp add: preamble_def)

lemma requests_of_csv_download:
  "requests_of (trace (snd (download_similarity_matrix_csv net fmt c t q w))) =
     requests_of (trace w) @ [csv_request c t q]"
  by (simp add: csv_trace split: outcome.splits)

lemma requests_of_sdf_download:
  "requests_of (trace (snd (download_similarity_sdf net fmt c t w))) =
     requests_of (trace w) @ [sdf_request c t]"
  by (simp add: sdf_trace split: outcome.splits)

lemma csv_writes:
  "filter is_write (trace (snd (download_similarity_matrix_csv net fmt c t q w))) =
     filter is_write (trace w) @
       (case net (nreq w) (csv_request c t q) of
          Raised e \<Rightarrow> []
        | Response sc body \<Rightarrow>
            if 400 \<le> sc \<and> sc < 600 then [] else [Write (csv_filepath fmt c t q) body])"
  by (cases "net (nreq w) (csv_request c t q)") (simp_all add: csv_trace)

lemma sdf_writes:
  "filter is_write (trace (snd (download_similarity_sdf net fmt c t w))) =
     filter is_write (trace w) @
       (case net (nreq w) (sdf_request c t) of
          Raised e \<Rightarrow> []
        | Response sc body \<Rightarrow>
            if 400 \<le> sc \<and> sc < 600 then [] else [Write (sdf_filepath fmt c t) body])"
  by (cases "net (nreq w) (sdf_request c t)") (simp_all add: sdf_trace)

lemma sleeps_of_append [simp]: "sleeps_of (xs @ ys) = sleeps_of xs @ sleeps_of ys"
  by (induction xs rule: sleeps_of.induct) simp_all

lemma sleeps_of_paced: "sleeps_of (filter paced tr) = sleeps_of tr"
  by (induction tr rule: sleeps_of.induct) simp_all

lemma sleeps_of_pairs:
  "sleeps_of (concat (map (\<lambda>(q, t). [Get (f q t), Sleep d]) ps)) = replicate (length ps) d"
  by (induction ps) (simp_all add: split_beta)

lemma sleeps_of_singles:
  "sleeps_of (concat (map (\<lambda>t. [Get (f t), Sleep d]) ts)) = replicate (length ts) d"
  by (induction ts) simp_all

lemma run_sleeps:
  assumes "is_200 (net (nreq w) main_probe)"
  shows "sleeps_of (trace (run net fmt dir ths qs w)) =
     sleeps_of (trace w) @ replicate (length qs * length ths) (1 / 2) @ replicate (length ths) 1"
proof -
  have "sleeps_of (trace (run net fmt dir ths qs w)) =
        sleeps_of (filter paced (trace (run net fmt dir ths qs w)))"
    by (simp add: sleeps_of_paced)
  also have "\<dots> = sleeps_of (trace w) @ replicate (length qs * length ths) (1 / 2)
                  @ replicate (length ths) 1"
    using assms
    by (simp add: run_proceed_paced sleeps_of_paced sleeps_of_pairs sleeps_of_singles)
  finally show ?thesis .
qed

lemma digit_char_inj:
  assumes "a < 10" "b < 10" "digit_char a = digit_char b"
  shows "a = b"
proof -
  have "distinct ''0123456789''" by simp
  moreover have "a < length ''0123456789''" "b < length ''0123456789''"
    using assms by simp_all
  ultimately have "(''0123456789'' ! a = ''0123456789'' ! b) = (a = b)"
    by (rule nth_eq_iff_index_eq)
  then show ?thesis using assms(3) by (simp add: digit_char_def)
qed

lemma digit_char_digit: "a < 10 \<Longrightarrow> digit_char a \<in> set ''0123456789''"
  unfolding digit_char_def by (rule nth_mem) simp

lemma digits_set: "ch \<in> set (digits n) \<Longrightarrow> ch \<in> set ''0123456789''"
proof (induction n rule: digits.induct)
  case (1 n)
  show ?case
  proof (cases "n < 10")
    case True
    then have "digits n = [digit_char n]" by (simp add: digits.simps)
    with "1.prems" True show ?thesis using digit_char_digit [of n] by simp
  next
    case False
    then have eq: "digits n = digits (n div 10) @ [digit_char (n mod 10)]"
      by (simp add: digits.simps)
    have "n mod 10 < 10" by simp
    then have "digit_char (n mod 10) \<in> set ''0123456789''" by (rule digit_char_digit)
    with "1.prems" "1.IH" [OF False] eq show ?thesis by auto
  qed
qed

lemma digits_nonempty: "digits n \<noteq> []"
  by (subst digits.simps) simp

lemma digits_inj: "digits n = digits m \<Longrightarrow> n = m"
proof (induction n arbitrary: m rule: digits.induct)
  case (1 n)
  show ?case
  proof (cases "n < 10")
    case n: True
    then have dn: "digits n = [digit_char n]" by (simp add: digits.simps)
    show ?thesis
    proof (cases "m < 10")
      case True
      then have "digits m = [digit_char m]" by (simp add: digits.simps)
      with dn "1.prems" have "digit_char n = digit_char m" by simp
      with n True show ?thesis by (rule digit_char_inj)
    next
      case False
      then have "digits m = digits (m div 10) @ [digit_char (m mod 10)]"
        by (simp add: digits.simps)
      with dn "1.prems" have "digits (m div 10) = []" by simp
      then show ?thesis by (simp add: digits_nonempty)
    qed
  next
    case n: False
    then have dn: "digits n = digits (n div 10) @ [digit_char (n mod 10)]"
      by (simp add: digits.simps)
    show ?thesis
    proof (cases "m < 10")
      case True
      then have "digits m = [digit_char m]" by (simp add: digits.simps)
      with dn "1.prems" have "digits (n div 10) = []" by simp
      then show ?thesis by (simp add: digits_nonempty)
    next
      case False
      then have "digits m = digits (m div 10) @ [digit_char (m mod 10)]"
        by (simp add: digits.simps)
      with dn "1.prems" have a: "digits (n div 10) = digits (m div 10)"
        and b: "digit_char (n mod 10) = digit_char (m mod 10)" by simp_all
      from a have "n div 10 = m div 10" by (rule "1.IH" [OF n])
      moreover have "n mod 10 = m mod 10"
        using b by (intro digit_char_inj) simp_all
      ultimately show ?thesis by (metis div_mult_mod_eq)
    qed
  qed
qed

lemma str_int_inj: "(str_int i = str_int j) = (i = j)"
proof
  assume eq: "str_int i = str_int j"
  have nodash: "digits n \<noteq> CHR ''-'' # xs" for n xs
  proof
    assume "digits n = CHR ''-'' # xs"
    then have "CHR ''-'' \<in> set (digits n)" by simp
    then have "CHR ''-'' \<in> set ''0123456789''" by (rule digits_set)
    then show False by simp
  qed
  show "i = j"
  proof (cases "i < 0")
    case i: True
    show ?thesis
    proof (cases "j < 0")
      case True
      with i eq have "digits (nat (- i)) = digits (nat (- j))" by (simp add: str_int_def)
      then have "nat (- i) = nat (- j)" by (rule digits_inj)
      with i True show ?thesis by simp
    next
      case False
      with i eq have "digits (nat j) = CHR ''-'' # digits (nat (- i))"
        by (simp add: str_int_def)
      with nodash show ?thesis by blast
    qed
  next
    case i: False
    show ?thesis
    proof (cases "j < 0")
      case True
      with i eq have "digits (nat i) = CHR ''-'' # digits (nat (- j))"
        by (simp add: str_int_def)
      with nodash show ?thesis by blast
    next
      case False
      with i eq have "digits (nat i) = digits (nat j)" by (simp add: str_int_def)
      then have "nat i = nat j" by (rule digits_inj)
      with i False show ?thesis by simp
    qed
  qed
qed simp

lemma str_int_no_underscore: "CHR ''_'' \<notin> set (str_int i)"
proof
  assume "CHR ''_'' \<in> set (str_int i)"
  then have "CHR ''_'' \<in> set (digits (nat (- i))) \<or> CHR ''_'' \<in> set (digits (nat i))"
    by (auto simp: str_int_def split: if_splits)
  then have "CHR ''_'' \<in> set ''0123456789''" using digits_set by blast
  then show False by simp
qed

lemma split_at_first:
  "x \<notin> set xs \<Longrightarrow> x \<notin> set xs' \<Longrightarrow> xs @ x # ys = xs' @ x # ys' \<Longrightarrow> xs = xs' \<and> ys = ys'"
proof (induction xs arbitrary: xs')
  case Nil
  then show ?case by (cases xs') auto
next
  case (Cons a xs)
  then show ?case by (cases xs') auto
qed

lemma csv_filepath_eq:
  "(csv_filepath fmt c t q = csv_filepath fmt c t' q') = (q = q' \<and> fmt t = fmt t')"
proof
  assume "csv_filepath fmt c t q = csv_filepath fmt c t' q'"
  then have "str_int q @ CHR ''_'' # (''threshold_'' @ fmt t @ ''.csv'') =
             str_int q' @ CHR ''_'' # (''threshold_'' @ fmt t' @ ''.csv'')"
    by (simp add: csv_filepath_def)
  then have "str_int q = str_int q' \<and>
             ''threshold_'' @ fmt t @ ''.csv'' = ''threshold_'' @ fmt t' @ ''.csv''"
    by (intro split_at_first [of "CHR ''_''"]) (simp_all add: str_int_no_underscore)
  then show "q = q' \<and> fmt t = fmt t'" by (simp add: str_int_inj)
next
  assume "q = q' \<and> fmt t = fmt t'"
  then show "csv_filepath fmt c t q = csv_filepath fmt c t' q'" by (simp add: csv_filepath_def)
qed

lemma sdf_filepath_eq: "(sdf_filepath fmt c t = sdf_filepath fmt c t') = (fmt t = fmt t')"
  by (simp add: sdf_filepath_def)

lemma csv_not_sdf: "csv_filepath fmt c t q \<noteq> sdf_filepath fmt' c' t'"
  by (simp add: csv_filepath_def sdf_filepath_def)

lemma write_paths_append [simp]: "write_paths (xs @ ys) = write_paths xs @ write_paths ys"
  by (induction xs rule: write_paths.induct) simp_all

lemma replay_append [simp]: "replay (xs @ ys) f = replay ys (replay xs f)"
proof (induction xs arbitrary: f)
  case Nil
  show ?case by simp
next
  case (Cons e xs)
  then show ?case by (cases e) (simp_all add: fun_upd_def)
qed

lemma task_writes_append:
  "task_writes net n (xs @ ys) = task_writes net n xs @ task_writes net (n + length xs) ys"
  by (induction xs arbitrary: n) auto

lemma is_write_write_of [simp]: "filter is_write (write_of out p) = write_of out p"
  by (cases out) (simp_all add: write_of_def)

lemma csv_writes_of:
  "filter is_write (trace (snd (download_similarity_matrix_csv net fmt c t q w))) =
     filter is_write (trace w) @ write_of (net (nreq w) (csv_request c t q)) (csv_filepath fmt c t q)"
  by (simp add: csv_writes write_of_def)

lemma sdf_writes_of:
  "filter is_write (trace (snd (download_similarity_sdf net fmt c t w))) =
     filter is_write (trace w) @ write_of (net (nreq w) (sdf_request c t)) (sdf_filepath fmt c t)"
  by (simp add: sdf_writes write_of_def)

lemma csv_fs_replay:
  "fs (snd (download_similarity_matrix_csv net fmt c t q w)) =
     replay (write_of (net (nreq w) (csv_request c t q)) (csv_filepath fmt c t q)) (fs w)"
  by (cases "net (nreq w) (csv_request c t q)") (simp_all add: csv_fs write_of_def)

lemma sdf_fs_replay:
  "fs (snd (download_similarity_sdf net fmt c t w)) =
     replay (write_of (net (nreq w) (sdf_request c t)) (sdf_filepath fmt c t)) (fs w)"
  by (cases "net (nreq w) (sdf_request c t)") (simp_all add: sdf_fs write_of_def)

lemma csv_task_writes:
  "filter is_write (trace (snd (csv_task net fmt c q t cw))) =
     filter is_write (trace (snd cw))
       @ write_of (net (nreq (snd cw)) (csv_request c t q)) (csv_filepath fmt c t q)"
  by (simp add: csv_task_trace csv_writes_of)

lemma sdf_task_writes:
  "filter is_write (trace (snd (sdf_task net fmt c t cw))) =
     filter is_write (trace (snd cw))
       @ write_of (net (nreq (snd cw)) (sdf_request c t)) (sdf_filepath fmt c t)"
  by (simp add: sdf_task_trace sdf_writes_of)

lemma csv_task_fs:
  "fs (snd (csv_task net fmt c q t cw)) =
     replay (write_of (net (nreq (snd cw)) (csv_request c t q)) (csv_filepath fmt c t q))
       (fs (snd cw))"
proof -
  obtain n w where cw: "cw = (n, w)" by (cases cw)
  obtain r w1 where d: "download_similarity_matrix_csv net fmt c t q (print (DownloadingCsv t) w) = (r, w1)"
    by (cases "download_similarity_matrix_csv net fmt c t q (print (DownloadingCsv t) w)")
  from csv_fs_replay [of net fmt c t q "print (DownloadingCsv t) w"] d
  have "fs w1 = replay (write_of (net (nreq w) (csv_request c t q)) (csv_filepath fmt c t q)) (fs w)"
    by simp
  then show ?thesis by (simp add: csv_task_def cw d split: option.splits)
qed

lemma sdf_task_fs:
  "fs (snd (sdf_task net fmt c t cw)) =
     replay (write_of (net (nreq (snd cw)) (sdf_request c t)) (sdf_filepath fmt c t))
       (fs (snd cw))"
proof -
  obtain n w where cw: "cw = (n, w)" by (cases cw)
  obtain r w1 where d: "download_similarity_sdf net fmt c t (print (DownloadingSdf t) w) = (r, w1)"
    by (cases "download_similarity_sdf net fmt c t (print (DownloadingSdf t) w)")
  from sdf_fs_replay [of net fmt c t "print (DownloadingSdf t) w"] d
  have "fs w1 = replay (write_of (net (nreq w) (sdf_request c t)) (sdf_filepath fmt c t)) (fs w)"
    by simp
  then show ?thesis by (simp add: sdf_task_def cw d split: option.splits)
qed

lemma csv_thresholds_writes:
  "filter is_write (trace (snd (csv_thresholds net fmt c q ts cw))) =
     filter is_write (trace (snd cw))
       @ task_writes net (nreq (snd cw)) (map (\<lambda>t. (csv_request c t q, csv_filepath fmt c t q)) ts)"
  by (induction ts arbitrary: cw) (simp_all add: csv_task_writes csv_task_nreq)

lemma csv_thresholds_fs:
  "fs (snd (csv_thresholds net fmt c q ts cw)) =
     replay (task_writes net (nreq (snd cw))
        (map (\<lambda>t. (csv_request c t q, csv_filepath fmt c t q)) ts)) (fs (snd cw))"
  by (induction ts arbitrary: cw) (simp_all add: csv_task_fs csv_task_nreq)

lemma csv_phase_writes:
  "filter is_write (trace (snd (csv_phase net fmt c qs ths cw))) =
     filter is_write (trace (snd cw)) @ task_writes net (nreq (snd cw)) (matrix_files fmt c qs ths)"
  unfolding matrix_files_def
  by (induction qs arbitrary: cw)
    (simp_all add: csv_thresholds_writes csv_thresholds_nreq task_writes_append comp_def)

lemma csv_phase_fs:
  "fs (snd (csv_phase net fmt c qs ths cw)) =
     replay (task_writes net (nreq (snd cw)) (matrix_files fmt c qs ths)) (fs (snd cw))"
  unfolding matrix_files_def
  by (induction qs arbitrary: cw)
    (simp_all add: csv_thresholds_fs csv_thresholds_nreq task_writes_append comp_def)

lemma sdf_phase_writes:
  "filter is_write (trace (snd (sdf_phase net fmt c ts cw))) =
     filter is_write (trace (snd cw)) @ task_writes net (nreq (snd cw)) (archive_files fmt c ts)"
  unfolding archive_files_def
  by (induction ts arbitrary: cw) (simp_all add: sdf_task_writes sdf_task_nreq)

lemma sdf_phase_fs:
  "fs (snd (sdf_phase net fmt c ts cw)) =
     replay (task_writes net (nreq (snd cw)) (archive_files fmt c ts)) (fs (snd cw))"
  unfolding archive_files_def
  by (induction ts arbitrary: cw) (simp_all add: sdf_task_fs sdf_task_nreq)

lemma length_matrix_files [simp]: "length (matrix_files fmt c qs ths) = length qs * length ths"
  by (simp add: matrix_files_def)

lemma is_write_preamble [simp]: "filter is_write (preamble dir ths qs) = []"
  by (simp add: preamble_def)

lemma run_writes:
  assumes "is_200 (net (nreq w) main_probe)"
  shows "filter is_write (trace (run net fmt dir ths qs w)) =
     filter is_write (trace w)
       @ task_writes net (nreq w + 2)
           (matrix_files fmt (bulk_client dir) qs ths @ archive_files fmt (bulk_client dir) ths)"
  using assms
  by (simp add: run_def Let_def PlateVSClient_init_def split_beta check_status_main
      check_status_world sdf_phase_writes csv_phase_writes csv_phase_nreq task_writes_append
      bulk_client_def)

lemma run_fs:
  assumes "is_200 (net (nreq w) main_probe)"
  shows "fs (run net fmt dir ths qs w) =
     replay (task_writes net (nreq w + 2)
       (matrix_files fmt (bulk_client dir) qs ths @ archive_files fmt (bulk_client dir) ths))
       (fs w)"
  using assms
  by (simp add: run_def Let_def PlateVSClient_init_def split_beta check_status_main
      check_status_world sdf_phase_fs csv_phase_fs csv_phase_nreq task_writes_append
      bulk_client_def)

lemma length_write_of:
  "length (write_of out p) = (if fetch_ok out then 1 else 0)"
  by (cases out) (simp_all add: write_of_def fetch_ok_def)

lemma length_task_writes:
  "length (task_writes net n tasks) = length (filter fetch_ok (outcomes net n (map fst tasks)))"
  by (induction tasks arbitrary: n) (auto simp: length_write_of)

lemma write_paths_write_of: "set (write_paths (write_of out p)) \<subseteq> {p}"
  by (cases out) (simp_all add: write_of_def)

lemma write_paths_task_writes:
  "set (write_paths (task_writes net n tasks)) \<subseteq> snd ` set tasks"
proof (induction tasks arbitrary: n)
  case Nil
  show ?case by simp
next
  case (Cons a tasks)
  obtain r p where a: "a = (r, p)" by (cases a)
  show ?case
    using Cons [of "Suc n"] write_paths_write_of [of "net n r" p] by (auto simp: a)
qed

lemma distinct_task_writes:
  "distinct (map snd tasks) \<Longrightarrow> distinct (write_paths (task_writes net n tasks))"
proof (induction tasks arbitrary: n)
  case Nil
  show ?case by simp
next
  case (Cons a tasks)
  obtain r p where a: "a = (r, p)" by (cases a)
  have tl: "distinct (write_paths (task_writes net (Suc n) tasks))"
    using Cons by simp
  have "p \<notin> snd ` set tasks" using Cons.prems by (simp add: a)
  then have notin: "p \<notin> set (write_paths (task_writes net (Suc n) tasks))"
    using write_paths_task_writes [of net "Suc n" tasks] by blast
  show ?case
  proof (cases "net n r")
    case (Raised e)
    then show ?thesis using tl by (simp add: a write_of_def)
  next
    case (Response sc body)
    then show ?thesis using tl notin by (simp add: a write_of_def)
  qed
qed

lemma replay_other: "p \<notin> set (write_paths es) \<Longrightarrow> replay es f p = f p"
proof (induction es arbitrary: f)
  case Nil
  show ?case by simp
next
  case (Cons e es)
  then show ?case by (cases e) (simp_all add: fun_upd_def)
qed

lemma write_in_paths: "Write p data \<in> set es \<Longrightarrow> p \<in> set (write_paths es)"
  by (induction es rule: write_paths.induct) auto

lemma replay_written:
  "distinct (write_paths es) \<Longrightarrow> Write p data \<in> set es \<Longrightarrow> replay es f p = Some data"
proof (induction es arbitrary: f)
  case Nil
  then show ?case by simp
next
  case (Cons e es)
  show ?case
  proof (cases "e = Write p data")
    case True
    then have "p \<notin> set (write_paths es)" using Cons.prems(1) by simp
    then have "replay es (f(p \<mapsto> data)) p = (f(p \<mapsto> data)) p" by (rule replay_other)
    with True show ?thesis by (simp add: fun_upd_def)
  next
    case False
    with Cons.prems(2) have mem: "Write p data \<in> set es" by simp
    have dist: "distinct (write_paths es)" using Cons.prems(1) by (cases e) simp_all
    have "replay es g p = Some data" for g using dist mem by (rule Cons.IH)
    then show ?thesis by (cases e) simp_all
  qed
qed

lemma distinct_task_files:
  assumes "distinct qs" "distinct ths" "inj_on fmt (set ths)"
  shows "distinct (map snd (matrix_files fmt c qs ths @ archive_files fmt c ths))"
proof -
  have inj1: "inj_on (\<lambda>(q, t). csv_filepath fmt c t q) (set (List.product qs ths))"
    using assms(3) by (auto simp: inj_on_def csv_filepath_eq)
  have "distinct (List.product qs ths)" using assms(1,2) by (rule distinct_product)
  with inj1 have d1: "distinct (map (\<lambda>(q, t). csv_filepath fmt c t q) (List.product qs ths))"
    by (simp add: distinct_map)
  have "inj_on (sdf_filepath fmt c) (set ths)"
    using assms(3) by (auto simp: inj_on_def sdf_filepath_eq)
  with assms(2) have d2: "distinct (map (sdf_filepath fmt c) ths)"
    by (simp add: distinct_map)
  have m1: "map snd (matrix_files fmt c qs ths) =
              map (\<lambda>(q, t). csv_filepath fmt c t q) (List.product qs ths)"
    by (simp add: matrix_files_def comp_def split_beta)
  have m2: "map snd (archive_files fmt c ths) = map (sdf_filepath fmt c) ths"
    by (simp add: archive_files_def comp_def)
  have "set (map (\<lambda>(q, t). csv_filepath fmt c t q) (List.product qs ths))
          \<inter> set (map (sdf_filepath fmt c) ths) = {}"
    by (auto simp: csv_not_sdf)
  with d1 d2 show ?thesis by (simp add: m1 m2)
qed

lemma outcomes_task_files:
  "map fst (matrix_files fmt c qs ths) = matrix_requests c qs ths"
  "map fst (archive_files fmt c ths) = archive_requests c ths"
  by (simp_all add: matrix_files_def archive_files_def matrix_requests_def archive_requests_def
      comp_def split_beta)

lemma length_run_writes:
  "length (task_writes net n (matrix_files fmt c qs ths @ archive_files fmt c ths)) =
     csv_succeeded net n c qs ths + sdf_succeeded net (n + length qs * length ths) c ths"
  by (simp add: length_task_writes outcomes_append outcomes_task_files csv_succeeded_def
      sdf_succeeded_def)

text \<open>
  Claim C7. A download whose fetch succeeds writes exactly one file. Its path is the
  output directory of the client and a name built from the parameters of the task alone:
  the coverage level and the threshold for a matrix CSV, the threshold for an archive.
  The name determines these parameters: two matrix files have the same path exactly when
  their coverage levels are equal and their thresholds are formatted alike, two archives
  exactly when their thresholds are formatted alike, and a matrix file is never an archive.
  The download does not look at the file system: it issues its request whether or not the
  file exists and replaces whatever content the file had, so running the task again
  leaves the body of the second response in the file. No other file changes.

  For a run that passed the check, the file writes are those of its successful tasks, one
  for each, in the order of the tasks, and the file system at the end is the one at the
  start with these writes performed. When the two lists have no duplicates and the
  thresholds are formatted differently, the written paths are pairwise different, so
  there are as many files as successful tasks and each holds the body of its response.
\<close>

section \<open>The claims\<close>

text \<open>
  Claim C1. When the reachability check lets the run proceed, the requests the run issues
  are: the two probes, then one matrix-CSV request for every pair of a coverage level and a
  threshold, coverage level by coverage level and threshold by threshold inside each level,
  then one archive request for every threshold. There are \<open>|coverage levels| * |thresholds|\<close>
  matrix requests; the request at position \<open>i * |thresholds| + j\<close> is the one for the
  \<open>i\<close>-th coverage level and the \<open>j\<close>-th threshold; and a request occurs as often as
  its parameters occur in the two lists, so exactly once when the lists have no duplicates.
  With the lists of \<^verbatim>\<open>main\<close> that makes 24 matrix requests and 6 archive requests.
\<close>

theorem C1_task_enumeration:
  assumes "is_200 (net (nreq w) main_probe)"
  shows "requests_of (trace (run net fmt dir ths qs w)) =
       requests_of (trace w) @ [main_probe, api_probe]
         @ matrix_requests (bulk_client dir) qs ths @ archive_requests (bulk_client dir) ths
     \<and> matrix_requests c qs ths = map (\<lambda>(q, t). csv_request c t q) (List.product qs ths)
     \<and> archive_requests c ths = map (sdf_request c) ths
     \<and> length (matrix_requests c qs ths) = length qs * length ths
     \<and> length (archive_requests c ths) = length ths
     \<and> (\<forall>i < length qs. \<forall>j < length ths.
           matrix_requests c qs ths ! (i * length ths + j) = csv_request c (ths ! j) (qs ! i))
     \<and> (\<forall>j < length ths. archive_requests c ths ! j = sdf_request c (ths ! j))
     \<and> (\<forall>q t. count_list (matrix_requests c qs ths) (csv_request c t q) =
           count_list qs q * count_list ths t)
     \<and> (\<forall>t. count_list (archive_requests c ths) (sdf_request c t) = count_list ths t)
     \<and> (distinct qs \<and> distinct ths \<longrightarrow>
          (\<forall>q \<in> set qs. \<forall>t \<in> set ths.
             count_list (matrix_requests c qs ths) (csv_request c t q) = 1
             \<and> count_list (archive_requests c ths) (sdf_request c t) = 1))
     \<and> requests_of (trace (main net fmt w)) =
         requests_of (trace w) @ [main_probe, api_probe]
           @ matrix_requests (bulk_client ''./platevs_full_dataset'') [50, 70, 95, 100]
               [0.0, 0.1, 0.3, 0.5, 0.7, 0.9]
           @ archive_requests (bulk_client ''./platevs_full_dataset'')
               [0.0, 0.1, 0.3, 0.5, 0.7, 0.9]
     \<and> length (matrix_requests (bulk_client ''./platevs_full_dataset'') [50, 70, 95, 100]
           [0.0, 0.1, 0.3, 0.5, 0.7, 0.9]) = 24
     \<and> length (archive_requests (bulk_client ''./platevs_full_dataset'')
           [0.0, 0.1, 0.3, 0.5, 0.7, 0.9]) = 6"
proof -
  have "requests_of (trace (run net fmt dir ths qs w)) =
       requests_of (trace w) @ [main_probe, api_probe]
         @ matrix_requests (bulk_client dir) qs ths @ archive_requests (bulk_client dir) ths"
    using assms by (rule run_requests)
  moreover have "requests_of (trace (main net fmt w)) =
         requests_of (trace w) @ [main_probe, api_probe]
           @ matrix_requests (bulk_client ''./platevs_full_dataset'') [50, 70, 95, 100]
               [0.0, 0.1, 0.3, 0.5, 0.7, 0.9]
           @ archive_requests (bulk_client ''./platevs_full_dataset'')
               [0.0, 0.1, 0.3, 0.5, 0.7, 0.9]"
    unfolding main_def using assms by (rule run_requests)
  moreover have "\<forall>i < length qs. \<forall>j < length ths.
           matrix_requests c qs ths ! (i * length ths + j) = csv_request c (ths ! j) (qs ! i)"
    by (simp add: matrix_requests_def product_index)
  moreover have "\<forall>j < length ths. archive_requests c ths ! j = sdf_request c (ths ! j)"
    by (simp add: archive_requests_def)
  moreover have "\<forall>q t. count_list (matrix_requests c qs ths) (csv_request c t q) =
           count_list qs q * count_list ths t"
    by (simp add: matrix_requests_def count_list_csv_requests count_list_product)
  moreover have "\<forall>t. count_list (archive_requests c ths) (sdf_request c t) = count_list ths t"
    by (simp add: archive_requests_def count_list_sdf_requests)
  moreover have "distinct qs \<and> distinct ths \<longrightarrow>
          (\<forall>q \<in> set qs. \<forall>t \<in> set ths.
             count_list (matrix_requests c qs ths) (csv_request c t q) = 1
             \<and> count_list (archive_requests c ths) (sdf_request c t) = 1)"
    by (simp add: matrix_requests_def archive_requests_def count_list_csv_requests
        count_list_product count_list_sdf_requests count_list_distinct)
  moreover have "matrix_requests c qs ths = map (\<lambda>(q, t). csv_request c t q) (List.product qs ths)"
    "archive_requests c ths = map (sdf_request c) ths"
    by (simp_all add: matrix_requests_def archive_requests_def)
  ultimately show ?thesis by simp
qed

theorem C1_task_enumeration_witness:
  "is_200 (net_ok (nreq w0) main_probe)
   \<and> requests_of (trace (run net_ok fmt0 ''out'' [0, 1 / 2, 9 / 10] [50, 100] w0)) =
       [main_probe, api_probe,
        csv_request (bulk_client ''out'') 0 50,
        csv_request (bulk_client ''out'') (1 / 2) 50,
        csv_request (bulk_client ''out'') (9 / 10) 50,
        csv_request (bulk_client ''out'') 0 100,
        csv_request (bulk_client ''out'') (1 / 2) 100,
        csv_request (bulk_client ''out'') (9 / 10) 100,
        sdf_request (bulk_client ''out'') 0,
        sdf_request (bulk_client ''out'') (1 / 2),
        sdf_request (bulk_client ''out'') (9 / 10)]
   \<and> distinct [50, 100 :: int] \<and> distinct [0, 1 / 2, 9 / 10 :: real]
   \<and> count_list (matrix_requests (bulk_client ''out'') [50, 100] [0, 1 / 2, 9 / 10])
        (csv_request (bulk_client ''out'') (1 / 2) 100) = 1
   \<and> matrix_requests (bulk_client ''out'') [50, 100] [0, 1 / 2, 9 / 10] ! (1 * 3 + 1) =
        csv_request (bulk_client ''out'') (1 / 2) 100"
  using C1_task_enumeration [of net_ok w0 fmt0 "''out''" "[0, 1 / 2, 9 / 10]" "[50, 100]"
      "bulk_client ''out''"]
  by (simp add: is_200_def net_ok_def w0_def matrix_requests_def archive_requests_def
      csv_request_def)




text \<open>
  Claim C3. The check reports the main site unreachable when the first probe raises or
  its status is not 200. Then the run performs the effects of its preamble (the header,
  the creation of the output directory and the two probes), prints the error and ends:
  its only requests are the two probes, it does not sleep, writes no file and prints no
  summary. Conversely, when the check passes, the two probes are the first requests of
  the run and none of the requests after them is a probe. In both cases each probe is
  issued exactly once.
\<close>

theorem C3_unreachable_aborts:
  "fst (check_service_status net w) ''main'' = Some (is_200 (net (nreq w) main_probe))
   \<and> (\<not> is_200 (net (nreq w) main_probe) \<longrightarrow>
        trace (run net fmt dir ths qs w) = trace w @ preamble dir ths qs @ [Print NotReachable]
        \<and> requests_of (trace (run net fmt dir ths qs w)) =
            requests_of (trace w) @ [main_probe, api_probe]
        \<and> filter paced (trace (run net fmt dir ths qs w)) =
            filter paced (trace w) @ [Get main_probe, Get api_probe]
        \<and> filter is_summary (trace (run net fmt dir ths qs w)) = filter is_summary (trace w)
        \<and> fs (run net fmt dir ths qs w) = fs w)
   \<and> (is_200 (net (nreq w) main_probe) \<longrightarrow>
        (\<exists>tasks. requests_of (trace (run net fmt dir ths qs w)) =
                   requests_of (trace w) @ [main_probe, api_probe] @ tasks
           \<and> length tasks = length qs * length ths + length ths
           \<and> main_probe \<notin> set tasks \<and> api_probe \<notin> set tasks))
   \<and> count_list (requests_of (trace (run net fmt dir ths qs w))) main_probe =
       count_list (requests_of (trace w)) main_probe + 1
   \<and> count_list (requests_of (trace (run net fmt dir ths qs w))) api_probe =
       count_list (requests_of (trace w)) api_probe + 1"
proof (cases "is_200 (net (nreq w) main_probe)")
  case True
  let ?tasks = "matrix_requests (bulk_client dir) qs ths @ archive_requests (bulk_client dir) ths"
  have req: "requests_of (trace (run net fmt dir ths qs w)) =
               requests_of (trace w) @ [main_probe, api_probe] @ ?tasks"
    using True by (simp add: run_requests)
  have "length ?tasks = length qs * length ths + length ths" by simp
  moreover have "main_probe \<notin> set ?tasks" "api_probe \<notin> set ?tasks" by simp_all
  ultimately have "\<exists>tasks. requests_of (trace (run net fmt dir ths qs w)) =
                   requests_of (trace w) @ [main_probe, api_probe] @ tasks
           \<and> length tasks = length qs * length ths + length ths
           \<and> main_probe \<notin> set tasks \<and> api_probe \<notin> set tasks"
    using req by blast
  moreover have "count_list (requests_of (trace (run net fmt dir ths qs w))) main_probe =
       count_list (requests_of (trace w)) main_probe + 1"
    "count_list (requests_of (trace (run net fmt dir ths qs w))) api_probe =
       count_list (requests_of (trace w)) api_probe + 1"
    by (simp_all add: req)
  ultimately show ?thesis using True by (simp add: check_status_result)
next
  case False
  have tr: "trace (run net fmt dir ths qs w) = trace w @ preamble dir ths qs @ [Print NotReachable]"
    and "fs (run net fmt dir ths qs w) = fs w"
    using False by (simp_all add: run_abort)
  then show ?thesis using False by (simp add: check_status_result)
qed

theorem C3_unreachable_aborts_witness:
  "\<not> is_200 (net_down (nreq w0) main_probe)
   \<and> is_200 (net_ok (nreq w0) main_probe)
   \<and> trace (run net_down fmt0 ''out'' [0, 1 / 2] [50, 100] w0) =
       [Print (Rule 60), Print Title, Print (Rule 60), Print (OutputDirectory ''out''),
        Print (Thresholds [0, 1 / 2]), Print (QcovLevels [50, 100]), Mkdir ''out'',
        Print CheckingStatus, Get main_probe, Get api_probe, Print NotReachable]
   \<and> fs (run net_down fmt0 ''out'' [0, 1 / 2] [50, 100] w0) = Map.empty
   \<and> length (requests_of (trace (run net_ok fmt0 ''out'' [0, 1 / 2] [50, 100] w0))) = 8
   \<and> count_list (requests_of (trace (run net_ok fmt0 ''out'' [0, 1 / 2] [50, 100] w0)))
        main_probe = 1"
  using C3_unreachable_aborts [of net_down w0 fmt0 "''out''" "[0, 1 / 2]" "[50, 100]"]
    C3_unreachable_aborts [of net_ok w0 fmt0 "''out''" "[0, 1 / 2]" "[50, 100]"]
  by (auto simp: is_200_def net_down_def net_ok_def w0_def preamble_def)

text \<open>
  Claim C4. The number of attempted tasks is the number of requests issued since the
  counting began. At every point of phase 1 (after any number of complete coverage levels
  and any number of thresholds of the next one) and at every point of phase 2 the counter
  of successes is at most the number of attempted tasks. A download returns a path exactly
  when its fetch succeeded, and the summary of a run that passed the check prints, once
  and for each category, the number of its tasks whose fetch succeeded next to the number
  of its tasks; the first is at most the second.
\<close>

theorem C4_counts:
  "(let cw1 = csv_phase net fmt c qs1 ths (0, w1);
              cw2 = csv_thresholds net fmt c q ts1 (fst cw1, print (ProcessingQcov q) (snd cw1))
          in nreq (snd cw2) - nreq w1 = length qs1 * length ths + length ts1
             \<and> fst cw2 \<le> nreq (snd cw2) - nreq w1)
   \<and> (let cw = sdf_phase net fmt c ts1 (0, w1)
        in nreq (snd cw) - nreq w1 = length ts1 \<and> fst cw \<le> nreq (snd cw) - nreq w1)
     \<and> (fst (download_similarity_matrix_csv net fmt c t q w1) \<noteq> None) =
         fetch_ok (net (nreq w1) (csv_request c t q))
     \<and> (fst (download_similarity_sdf net fmt c t w1) \<noteq> None) =
         fetch_ok (net (nreq w1) (sdf_request c t))
     \<and> (is_200 (net (nreq w) main_probe) \<longrightarrow>
         filter is_summary (trace (run net fmt dir ths qs w)) =
           filter is_summary (trace w) @
             [Print (CsvsDownloaded (csv_succeeded net (nreq w + 2) (bulk_client dir) qs ths)
                (length ths * length qs)),
              Print (SdfsDownloaded
                (sdf_succeeded net (nreq w + 2 + length qs * length ths) (bulk_client dir) ths)
                (length ths))])
     \<and> csv_succeeded net n (bulk_client dir) qs ths \<le> length ths * length qs
     \<and> sdf_succeeded net n (bulk_client dir) ths \<le> length ths"
proof -
  have a: "fst (csv_phase net fmt c qs1 ths (0, w1)) \<le> length qs1 * length ths"
  proof -
    have "length (filter fetch_ok (outcomes net (nreq w1)
            (map (\<lambda>(q, t). csv_request c t q) (List.product qs1 ths))))
          \<le> length (outcomes net (nreq w1)
            (map (\<lambda>(q, t). csv_request c t q) (List.product qs1 ths)))"
      by (rule length_filter_le)
    then show ?thesis by (simp add: csv_phase_count)
  qed
  have b: "length (filter fetch_ok (outcomes net n (map (\<lambda>t. csv_request c t q) ts1)))
             \<le> length ts1" for n
  proof -
    have "length (filter fetch_ok (outcomes net n (map (\<lambda>t. csv_request c t q) ts1)))
            \<le> length (outcomes net n (map (\<lambda>t. csv_request c t q) ts1))"
      by (rule length_filter_le)
    then show ?thesis by simp
  qed
  have c: "fst (sdf_phase net fmt c ts1 (0, w1)) \<le> length ts1"
  proof -
    have "length (filter fetch_ok (outcomes net (nreq w1) (map (sdf_request c) ts1)))
            \<le> length (outcomes net (nreq w1) (map (sdf_request c) ts1))"
      by (rule length_filter_le)
    then show ?thesis by (simp add: sdf_phase_count)
  qed
  have p1: "(let cw1 = csv_phase net fmt c qs1 ths (0, w1);
              cw2 = csv_thresholds net fmt c q ts1 (fst cw1, print (ProcessingQcov q) (snd cw1))
          in nreq (snd cw2) - nreq w1 = length qs1 * length ths + length ts1
             \<and> fst cw2 \<le> nreq (snd cw2) - nreq w1)"
    using a b [of "nreq w1 + length qs1 * length ths"]
    by (simp add: Let_def csv_thresholds_nreq csv_thresholds_count csv_phase_nreq add_mono)
  have p2: "(let cw = sdf_phase net fmt c ts1 (0, w1)
        in nreq (snd cw) - nreq w1 = length ts1 \<and> fst cw \<le> nreq (snd cw) - nreq w1)"
    using c by (simp add: Let_def sdf_phase_nreq)
  have p3: "(fst (download_similarity_matrix_csv net fmt c t q w1) \<noteq> None) =
         fetch_ok (net (nreq w1) (csv_request c t q))"
    "(fst (download_similarity_sdf net fmt c t w1) \<noteq> None) =
         fetch_ok (net (nreq w1) (sdf_request c t))"
    by (simp_all add: csv_result sdf_result)
  show ?thesis
    using p1 p2 p3 by (simp add: run_summary csv_succeeded_le sdf_succeeded_le)
qed

theorem C4_counts_witness:
  "is_200 (net_mixed (nreq w0) main_probe)
   \<and> fst (csv_thresholds net_mixed fmt0 (bulk_client ''out'') 100 [0]
        (fst (csv_phase net_mixed fmt0 (bulk_client ''out'') [50] [0, 1 / 2] (0, w0)),
         print (ProcessingQcov 100)
           (snd (csv_phase net_mixed fmt0 (bulk_client ''out'') [50] [0, 1 / 2] (0, w0))))) \<le> 3
   \<and> filter is_summary (trace (run net_mixed fmt0 ''out'' [0, 1 / 2] [50, 100] w0)) =
        [Print (CsvsDownloaded 2 4), Print (SdfsDownloaded 1 2)]"
  using C4_counts [of net_mixed fmt0 "bulk_client ''out''" "[50]" "[0, 1 / 2]" w0 100 "[0]"
      0 w0 "''out''" "[50, 100]" 2]
  by (simp add: is_200_def net_mixed_def w0_def Let_def csv_succeeded_def sdf_succeeded_def
      fetch_ok_def csv_thresholds_nreq csv_phase_nreq matrix_requests_def archive_requests_def)

text \<open>
  Claim C5, as the code has it. \<^verbatim>\<open>raise_for_status\<close> raises for the status codes 400 to
  599 only. When \<^verbatim>\<open>session.get\<close> raises or the final status is between 400 and 599, a
  download returns \<^verbatim>\<open>None\<close> and writes nothing: the file system is as before. For
  every other final status it writes the body of the response to the file of the task,
  and nothing else, and returns the path of that file: for every status from 200 to 299,
  and also for a final status below 200, from 300 to 399 (a response that is not a
  redirect the library follows, such as 304) or above 599.
\<close>

theorem C5_path_unless_error_status:
  "raise_for_status sc = (if 400 \<le> sc \<and> sc < 600 then Inl (HTTPError sc) else Inr ())
   \<and> fst (download_similarity_matrix_csv net fmt c t q w) =
       (case net (nreq w) (csv_request c t q) of
          Raised e \<Rightarrow> None
        | Response st data \<Rightarrow>
            if 400 \<le> st \<and> st < 600 then None else Some (csv_filepath fmt c t q))
   \<and> fs (snd (download_similarity_matrix_csv net fmt c t q w)) =
       (case net (nreq w) (csv_request c t q) of
          Raised e \<Rightarrow> fs w
        | Response st data \<Rightarrow>
            if 400 \<le> st \<and> st < 600 then fs w else (fs w)(csv_filepath fmt c t q \<mapsto> data))
   \<and> filter is_write (trace (snd (download_similarity_matrix_csv net fmt c t q w))) =
       filter is_write (trace w) @
         (case net (nreq w) (csv_request c t q) of
            Raised e \<Rightarrow> []
          | Response st data \<Rightarrow>
              if 400 \<le> st \<and> st < 600 then [] else [Write (csv_filepath fmt c t q) data])
   \<and> fst (download_similarity_sdf net fmt c t w) =
       (case net (nreq w) (sdf_request c t) of
          Raised e \<Rightarrow> None
        | Response st data \<Rightarrow>
            if 400 \<le> st \<and> st < 600 then None else Some (sdf_filepath fmt c t))
   \<and> fs (snd (download_similarity_sdf net fmt c t w)) =
       (case net (nreq w) (sdf_request c t) of
          Raised e \<Rightarrow> fs w
        | Response st data \<Rightarrow>
            if 400 \<le> st \<and> st < 600 then fs w else (fs w)(sdf_filepath fmt c t \<mapsto> data))
   \<and> filter is_write (trace (snd (download_similarity_sdf net fmt c t w))) =
       filter is_write (trace w) @
         (case net (nreq w) (sdf_request c t) of
            Raised e \<Rightarrow> []
          | Response st data \<Rightarrow>
              if 400 \<le> st \<and> st < 600 then [] else [Write (sdf_filepath fmt c t) data])
   \<and> (net (nreq w) (csv_request c t q) = Response sc body \<and> 200 \<le> sc \<and> sc < 300 \<longrightarrow>
        fst (download_similarity_matrix_csv net fmt c t q w) = Some (csv_filepath fmt c t q)
        \<and> fs (snd (download_similarity_matrix_csv net fmt c t q w)) (csv_filepath fmt c t q) =
            Some body)
   \<and> (net (nreq w) (sdf_request c t) = Response sc body \<and> 200 \<le> sc \<and> sc < 300 \<longrightarrow>
        fst (download_similarity_sdf net fmt c t w) = Some (sdf_filepath fmt c t)
        \<and> fs (snd (download_similarity_sdf net fmt c t w)) (sdf_filepath fmt c t) = Some body)"
proof -
  have rs: "raise_for_status sc = (if 400 \<le> sc \<and> sc < 600 then Inl (HTTPError sc) else Inr ())"
    by (auto simp: raise_for_status_def)
  have r1: "fst (download_similarity_matrix_csv net fmt c t q w) =
       (case net (nreq w) (csv_request c t q) of
          Raised e \<Rightarrow> None
        | Response st data \<Rightarrow>
            if 400 \<le> st \<and> st < 600 then None else Some (csv_filepath fmt c t q))"
    by (cases "net (nreq w) (csv_request c t q)") (simp_all add: csv_result fetch_ok_def)
  have r2: "fst (download_similarity_sdf net fmt c t w) =
       (case net (nreq w) (sdf_request c t) of
          Raised e \<Rightarrow> None
        | Response st data \<Rightarrow>
            if 400 \<le> st \<and> st < 600 then None else Some (sdf_filepath fmt c t))"
    by (cases "net (nreq w) (sdf_request c t)") (simp_all add: sdf_result fetch_ok_def)
  have ok1: "fst (download_similarity_matrix_csv net fmt c t q w) = Some (csv_filepath fmt c t q)
        \<and> fs (snd (download_similarity_matrix_csv net fmt c t q w)) (csv_filepath fmt c t q) =
            Some body"
    if "net (nreq w) (csv_request c t q) = Response sc body" "200 \<le> sc" "sc < 300"
    using that by (simp add: r1 csv_fs)
  have ok2: "fst (download_similarity_sdf net fmt c t w) = Some (sdf_filepath fmt c t)
        \<and> fs (snd (download_similarity_sdf net fmt c t w)) (sdf_filepath fmt c t) = Some body"
    if "net (nreq w) (sdf_request c t) = Response sc body" "200 \<le> sc" "sc < 300"
    using that by (simp add: r2 sdf_fs)
  show ?thesis
    using rs r1 r2 ok1 ok2
      csv_fs [of net fmt c t q w] csv_writes [of net fmt c t q w]
      sdf_fs [of net fmt c t w] sdf_writes [of net fmt c t w]
    by blast
qed

theorem C5_path_unless_error_status_witness:
  "net_ok (nreq w0) (csv_request (bulk_client ''out'') (9 / 10) 100) = Response 200 ''a,b''
   \<and> net_ok (nreq w0) (sdf_request (bulk_client ''out'') (9 / 10)) = Response 200 ''a,b''
   \<and> (200::nat) \<le> 200 \<and> (200::nat) < 300
   \<and> fst (download_similarity_matrix_csv net_ok fmt0 (bulk_client ''out'') (9 / 10) 100 w0) =
       Some (csv_filepath fmt0 (bulk_client ''out'') (9 / 10) 100)
   \<and> fs (snd (download_similarity_matrix_csv net_ok fmt0 (bulk_client ''out'') (9 / 10) 100 w0))
       (csv_filepath fmt0 (bulk_client ''out'') (9 / 10) 100) = Some ''a,b''
   \<and> filter is_write
        (trace (snd (download_similarity_matrix_csv net_ok fmt0 (bulk_client ''out'') (9 / 10)
           100 w0))) =
       [Write (csv_filepath fmt0 (bulk_client ''out'') (9 / 10) 100) ''a,b'']
   \<and> fst (download_similarity_sdf net_ok fmt0 (bulk_client ''out'') (9 / 10) w0) =
       Some (sdf_filepath fmt0 (bulk_client ''out'') (9 / 10))
   \<and> fs (snd (download_similarity_sdf net_ok fmt0 (bulk_client ''out'') (9 / 10) w0))
       (sdf_filepath fmt0 (bulk_client ''out'') (9 / 10)) = Some ''a,b''"
  using C5_path_unless_error_status [of 200 net_ok fmt0 "bulk_client ''out''" "9 / 10" 100 w0
      "''a,b''"]
  by (simp add: net_ok_def w0_def)

text \<open>
  The claim C5 as the specification words it fails for a final status 304: the status is
  not between 200 and 299, \<^verbatim>\<open>raise_for_status\<close> does not raise, and the download
  writes the file and returns its path.
\<close>

theorem C5_counterexample:
  "net_304 (nreq w0) (csv_request (bulk_client ''out'') (9 / 10) 100) = Response 304 []
   \<and> \<not> (200 \<le> (304::nat) \<and> (304::nat) < 300)
   \<and> raise_for_status 304 = Inr ()
   \<and> fst (download_similarity_matrix_csv net_304 fmt0 (bulk_client ''out'') (9 / 10) 100 w0) =
       Some (csv_filepath fmt0 (bulk_client ''out'') (9 / 10) 100)
   \<and> filter is_write
        (trace (snd (download_similarity_matrix_csv net_304 fmt0 (bulk_client ''out'') (9 / 10)
           100 w0))) =
       [Write (csv_filepath fmt0 (bulk_client ''out'') (9 / 10) 100) []]
   \<and> fs (snd (download_similarity_matrix_csv net_304 fmt0 (bulk_client ''out'') (9 / 10) 100 w0))
       (csv_filepath fmt0 (bulk_client ''out'') (9 / 10) 100) = Some []"
  by (simp add: csv_result csv_fs csv_writes fetch_ok_def net_304_def raise_for_status_def
      w0_def)

text \<open>
  Claim C6 at a failing input: the server answers a matrix-CSV request with status 200 and
  an empty body. The fetch succeeds, so the download writes the body to the file of the
  task, returns its path, and the loop counts the task as succeeded: the file that was
  written is empty, and so is the archive in the same situation.
\<close>

theorem C6_empty_body_counted:
  "net_empty (nreq w0) (csv_request (bulk_client ''out'') 0 50) = Response 200 []
   \<and> fst (download_similarity_matrix_csv net_empty fmt0 (bulk_client ''out'') 0 50 w0) =
       Some (csv_filepath fmt0 (bulk_client ''out'') 0 50)
   \<and> filter is_write
        (trace (snd (download_similarity_matrix_csv net_empty fmt0 (bulk_client ''out'') 0 50 w0))) =
       [Write (csv_filepath fmt0 (bulk_client ''out'') 0 50) []]
   \<and> fs (snd (download_similarity_matrix_csv net_empty fmt0 (bulk_client ''out'') 0 50 w0))
       (csv_filepath fmt0 (bulk_client ''out'') 0 50) = Some []
   \<and> fst (csv_task net_empty fmt0 (bulk_client ''out'') 50 0 (0, w0)) = 1
   \<and> fs (snd (download_similarity_sdf net_empty fmt0 (bulk_client ''out'') 0 w0))
       (sdf_filepath fmt0 (bulk_client ''out'') 0) = Some []
   \<and> fst (sdf_task net_empty fmt0 (bulk_client ''out'') 0 (0, w0)) = 1"
  by (simp add: csv_result csv_fs csv_writes csv_task_count sdf_fs sdf_task_count fetch_ok_def
      net_empty_def w0_def)

theorem C7_one_file_per_task:
  "(net (nreq w) (csv_request c t q) = Response sc body \<and> \<not> (400 \<le> sc \<and> sc < 600) \<longrightarrow>
      fst (download_similarity_matrix_csv net fmt c t q w) =
        Some (Path (output_dir c)
          (''similarity_matrix_qcov'' @ str_int q @ ''_threshold_'' @ fmt t @ ''.csv''))
      \<and> filter is_write (trace (snd (download_similarity_matrix_csv net fmt c t q w))) =
          filter is_write (trace w) @ [Write (csv_filepath fmt c t q) body]
      \<and> fs (snd (download_similarity_matrix_csv net fmt c t q w)) =
          (fs w)(csv_filepath fmt c t q \<mapsto> body)
      \<and> requests_of (trace (snd (download_similarity_matrix_csv net fmt c t q w))) =
          requests_of (trace w) @ [csv_request c t q]
      \<and> (net (Suc (nreq w)) (csv_request c t q) = Response sc2 body2
           \<and> \<not> (400 \<le> sc2 \<and> sc2 < 600) \<longrightarrow>
         fs (snd (download_similarity_matrix_csv net fmt c t q
                (snd (download_similarity_matrix_csv net fmt c t q w)))) =
           (fs w)(csv_filepath fmt c t q \<mapsto> body2)
         \<and> requests_of (trace (snd (download_similarity_matrix_csv net fmt c t q
                (snd (download_similarity_matrix_csv net fmt c t q w))))) =
             requests_of (trace w) @ [csv_request c t q, csv_request c t q]))
   \<and> (net (nreq w) (sdf_request c t) = Response sc body \<and> \<not> (400 \<le> sc \<and> sc < 600) \<longrightarrow>
      fst (download_similarity_sdf net fmt c t w) =
        Some (Path (output_dir c) (''similarity_sdf_threshold_'' @ fmt t @ ''.tar.gz''))
      \<and> filter is_write (trace (snd (download_similarity_sdf net fmt c t w))) =
          filter is_write (trace w) @ [Write (sdf_filepath fmt c t) body]
      \<and> fs (snd (download_similarity_sdf net fmt c t w)) = (fs w)(sdf_filepath fmt c t \<mapsto> body)
      \<and> requests_of (trace (snd (download_similarity_sdf net fmt c t w))) =
          requests_of (trace w) @ [sdf_request c t])
   \<and> (csv_filepath fmt c t q = csv_filepath fmt c t' q') = (q = q' \<and> fmt t = fmt t')
   \<and> (sdf_filepath fmt c t = sdf_filepath fmt c t') = (fmt t = fmt t')
   \<and> csv_filepath fmt c t q \<noteq> sdf_filepath fmt c t'
   \<and> (str_int q = str_int q') = (q = q')
   \<and> parent (csv_filepath fmt c t q) = output_dir c
   \<and> parent (sdf_filepath fmt c t) = output_dir c
   \<and> (is_200 (net (nreq w) main_probe) \<longrightarrow>
        (let written = task_writes net (nreq w + 2)
               (matrix_files fmt (bulk_client dir) qs ths
                  @ archive_files fmt (bulk_client dir) ths)
         in filter is_write (trace (run net fmt dir ths qs w)) =
              filter is_write (trace w) @ written
            \<and> fs (run net fmt dir ths qs w) = replay written (fs w)
            \<and> length written =
                csv_succeeded net (nreq w + 2) (bulk_client dir) qs ths
                  + sdf_succeeded net (nreq w + 2 + length qs * length ths) (bulk_client dir) ths
            \<and> (distinct qs \<and> distinct ths \<and> inj_on fmt (set ths) \<longrightarrow>
                 distinct (write_paths written)
                 \<and> (\<forall>p data. Write p data \<in> set written \<longrightarrow>
                       fs (run net fmt dir ths qs w) p = Some data))))"
proof -
  let ?w1 = "snd (download_similarity_matrix_csv net fmt c t q w)"
  let ?written = "task_writes net (nreq w + 2)
               (matrix_files fmt (bulk_client dir) qs ths
                  @ archive_files fmt (bulk_client dir) ths)"
  have csv: "fst (download_similarity_matrix_csv net fmt c t q w) =
        Some (Path (output_dir c)
          (''similarity_matrix_qcov'' @ str_int q @ ''_threshold_'' @ fmt t @ ''.csv''))
      \<and> filter is_write (trace ?w1) =
          filter is_write (trace w) @ [Write (csv_filepath fmt c t q) body]
      \<and> fs ?w1 = (fs w)(csv_filepath fmt c t q \<mapsto> body)"
    if "net (nreq w) (csv_request c t q) = Response sc body" "\<not> (400 \<le> sc \<and> sc < 600)"
    using that by (auto simp: csv_result csv_writes csv_fs fetch_ok_def csv_filepath_def)
  have again: "fs (snd (download_similarity_matrix_csv net fmt c t q ?w1)) =
           (fs w)(csv_filepath fmt c t q \<mapsto> body2)"
    if "fs ?w1 = (fs w)(csv_filepath fmt c t q \<mapsto> body)"
      "net (Suc (nreq w)) (csv_request c t q) = Response sc2 body2"
      "\<not> (400 \<le> sc2 \<and> sc2 < 600)"
  proof -
    have "net (nreq ?w1) (csv_request c t q) = Response sc2 body2"
      using that(2) by (simp add: csv_nreq)
    then show ?thesis
      using that(1,3) by (auto simp: csv_fs [of net fmt c t q ?w1])
  qed
  have sdf: "fst (download_similarity_sdf net fmt c t w) =
        Some (Path (output_dir c) (''similarity_sdf_threshold_'' @ fmt t @ ''.tar.gz''))
      \<and> filter is_write (trace (snd (download_similarity_sdf net fmt c t w))) =
          filter is_write (trace w) @ [Write (sdf_filepath fmt c t) body]
      \<and> fs (snd (download_similarity_sdf net fmt c t w)) = (fs w)(sdf_filepath fmt c t \<mapsto> body)"
    if "net (nreq w) (sdf_request c t) = Response sc body" "\<not> (400 \<le> sc \<and> sc < 600)"
    using that by (auto simp: sdf_result sdf_writes sdf_fs fetch_ok_def sdf_filepath_def)
  have reqs: "requests_of (trace ?w1) = requests_of (trace w) @ [csv_request c t q]"
    "requests_of (trace (snd (download_similarity_matrix_csv net fmt c t q ?w1))) =
       requests_of (trace w) @ [csv_request c t q, csv_request c t q]"
    "requests_of (trace (snd (download_similarity_sdf net fmt c t w))) =
       requests_of (trace w) @ [sdf_request c t]"
    by (simp_all add: requests_of_csv_download requests_of_sdf_download)
  have names: "(csv_filepath fmt c t q = csv_filepath fmt c t' q') = (q = q' \<and> fmt t = fmt t')"
    "(sdf_filepath fmt c t = sdf_filepath fmt c t') = (fmt t = fmt t')"
    "csv_filepath fmt c t q \<noteq> sdf_filepath fmt c t'"
    "(str_int q = str_int q') = (q = q')"
    "parent (csv_filepath fmt c t q) = output_dir c"
    "parent (sdf_filepath fmt c t) = output_dir c"
    by (simp_all add: csv_filepath_eq sdf_filepath_eq csv_not_sdf str_int_inj)
      (simp_all add: csv_filepath_def sdf_filepath_def)
  have run1: "filter is_write (trace (run net fmt dir ths qs w)) =
              filter is_write (trace w) @ ?written
            \<and> fs (run net fmt dir ths qs w) = replay ?written (fs w)"
    if "is_200 (net (nreq w) main_probe)"
    using that by (simp add: run_writes run_fs)
  have len: "length ?written =
                csv_succeeded net (nreq w + 2) (bulk_client dir) qs ths
                  + sdf_succeeded net (nreq w + 2 + length qs * length ths) (bulk_client dir) ths"
    by (rule length_run_writes)
  have dist: "distinct (write_paths ?written)"
    if "distinct qs" "distinct ths" "inj_on fmt (set ths)"
    using that by (intro distinct_task_writes distinct_task_files)
  have files: "fs (run net fmt dir ths qs w) p = Some data"
    if "is_200 (net (nreq w) main_probe)" "distinct qs" "distinct ths" "inj_on fmt (set ths)"
      "Write p data \<in> set ?written" for p data
  proof -
    have "replay ?written (fs w) p = Some data"
      using dist [OF that(2,3,4)] that(5) by (rule replay_written)
    then show ?thesis using run1 [OF that(1)] by simp
  qed
  have run: "is_200 (net (nreq w) main_probe) \<longrightarrow>
        (let written = ?written
         in filter is_write (trace (run net fmt dir ths qs w)) =
              filter is_write (trace w) @ written
            \<and> fs (run net fmt dir ths qs w) = replay written (fs w)
            \<and> length written =
                csv_succeeded net (nreq w + 2) (bulk_client dir) qs ths
                  + sdf_succeeded net (nreq w + 2 + length qs * length ths) (bulk_client dir) ths
            \<and> (distinct qs \<and> distinct ths \<and> inj_on fmt (set ths) \<longrightarrow>
                 distinct (write_paths written)
                 \<and> (\<forall>p data. Write p data \<in> set written \<longrightarrow>
                       fs (run net fmt dir ths qs w) p = Some data)))"
    unfolding Let_def using run1 len dist files by blast
  show ?thesis
    using csv again sdf reqs names run by blast
qed

theorem C7_one_file_per_task_witness:
  "net_twice (nreq w0) (csv_request (bulk_client ''out'') 0 50) = Response 200 ''old''
   \<and> \<not> (400 \<le> (200::nat) \<and> (200::nat) < 600)
   \<and> net_twice (Suc (nreq w0)) (csv_request (bulk_client ''out'') 0 50) = Response 200 ''new''
   \<and> net_twice (nreq w0) (sdf_request (bulk_client ''out'') 0) = Response 200 ''old''
   \<and> fst (download_similarity_matrix_csv net_twice fmt0 (bulk_client ''out'') 0 50 w0) =
       Some (Path ''out'' ''similarity_matrix_qcov50_threshold_0.0.csv'')
   \<and> fs (snd (download_similarity_matrix_csv net_twice fmt0 (bulk_client ''out'') 0 50 w0))
       (Path ''out'' ''similarity_matrix_qcov50_threshold_0.0.csv'') = Some ''old''
   \<and> fs (snd (download_similarity_matrix_csv net_twice fmt0 (bulk_client ''out'') 0 50
               (snd (download_similarity_matrix_csv net_twice fmt0 (bulk_client ''out'') 0 50 w0))))
       (Path ''out'' ''similarity_matrix_qcov50_threshold_0.0.csv'') = Some ''new''
   \<and> fst (download_similarity_sdf net_twice fmt0 (bulk_client ''out'') 0 w0) =
       Some (Path ''out'' ''similarity_sdf_threshold_0.0.tar.gz'')
   \<and> net_ok (nreq w0) (csv_request (bulk_client ''out'') (7 / 10) 100) = Response 200 ''a,b''
   \<and> fst (download_similarity_matrix_csv net_ok fmt0 (bulk_client ''out'') (7 / 10) 100 w0) =
       Some (Path ''out'' ''similarity_matrix_qcov100_threshold_0.7.csv'')
   \<and> csv_filepath fmt0 (bulk_client ''out'') (1 / 10) 95 \<noteq>
       csv_filepath fmt0 (bulk_client ''out'') (1 / 10) 70
   \<and> csv_filepath fmt0 (bulk_client ''out'') (1 / 10) 95 \<noteq>
       csv_filepath fmt0 (bulk_client ''out'') (9 / 10) 95
   \<and> is_200 (net_mixed (nreq w0) main_probe)
   \<and> distinct [50, 100 :: int] \<and> distinct [0, 1 / 2 :: real] \<and> inj_on fmt0 (set [0, 1 / 2])
   \<and> filter is_write (trace (run net_mixed fmt0 ''out'' [0, 1 / 2] [50, 100] w0)) =
       [Write (Path ''out'' ''similarity_matrix_qcov50_threshold_0.0.csv'') ''a,b'',
        Write (Path ''out'' ''similarity_matrix_qcov100_threshold_0.0.csv'') ''a,b'',
        Write (Path ''out'' ''similarity_sdf_threshold_0.0.tar.gz'') ''a,b'']
   \<and> fs (run net_mixed fmt0 ''out'' [0, 1 / 2] [50, 100] w0)
       (Path ''out'' ''similarity_matrix_qcov100_threshold_0.0.csv'') = Some ''a,b''
   \<and> fs (run net_mixed fmt0 ''out'' [0, 1 / 2] [50, 100] w0)
       (Path ''out'' ''similarity_matrix_qcov100_threshold_0.5.csv'') = None
   \<and> is_200 (net_ok (nreq w0) main_probe)
   \<and> distinct [50, 70, 95, 100 :: int] \<and> distinct [0.0, 0.1, 0.3, 0.5, 0.7, 0.9 :: real]
   \<and> inj_on fmt0 (set [0.0, 0.1, 0.3, 0.5, 0.7, 0.9])
   \<and> length (filter is_write (trace (run net_ok fmt0 ''./platevs_full_dataset''
        [0.0, 0.1, 0.3, 0.5, 0.7, 0.9] [50, 70, 95, 100] w0))) = 30
   \<and> distinct (write_paths (filter is_write (trace (run net_ok fmt0 ''./platevs_full_dataset''
        [0.0, 0.1, 0.3, 0.5, 0.7, 0.9] [50, 70, 95, 100] w0))))"
proof -
  have small: "net_twice (nreq w0) (csv_request (bulk_client ''out'') 0 50) = Response 200 ''old''
   \<and> \<not> (400 \<le> (200::nat) \<and> (200::nat) < 600)
   \<and> net_twice (Suc (nreq w0)) (csv_request (bulk_client ''out'') 0 50) = Response 200 ''new''
   \<and> net_twice (nreq w0) (sdf_request (bulk_client ''out'') 0) = Response 200 ''old''
   \<and> fst (download_similarity_matrix_csv net_twice fmt0 (bulk_client ''out'') 0 50 w0) =
       Some (Path ''out'' ''similarity_matrix_qcov50_threshold_0.0.csv'')
   \<and> fs (snd (download_similarity_matrix_csv net_twice fmt0 (bulk_client ''out'') 0 50 w0))
       (Path ''out'' ''similarity_matrix_qcov50_threshold_0.0.csv'') = Some ''old''
   \<and> fs (snd (download_similarity_matrix_csv net_twice fmt0 (bulk_client ''out'') 0 50
               (snd (download_similarity_matrix_csv net_twice fmt0 (bulk_client ''out'') 0 50 w0))))
       (Path ''out'' ''similarity_matrix_qcov50_threshold_0.0.csv'') = Some ''new''
   \<and> fst (download_similarity_sdf net_twice fmt0 (bulk_client ''out'') 0 w0) =
       Some (Path ''out'' ''similarity_sdf_threshold_0.0.tar.gz'')
   \<and> net_ok (nreq w0) (csv_request (bulk_client ''out'') (7 / 10) 100) = Response 200 ''a,b''
   \<and> fst (download_similarity_matrix_csv net_ok fmt0 (bulk_client ''out'') (7 / 10) 100 w0) =
       Some (Path ''out'' ''similarity_matrix_qcov100_threshold_0.7.csv'')
   \<and> csv_filepath fmt0 (bulk_client ''out'') (1 / 10) 95 \<noteq>
       csv_filepath fmt0 (bulk_client ''out'') (1 / 10) 70
   \<and> csv_filepath fmt0 (bulk_client ''out'') (1 / 10) 95 \<noteq>
       csv_filepath fmt0 (bulk_client ''out'') (9 / 10) 95
   \<and> is_200 (net_mixed (nreq w0) main_probe)
   \<and> distinct [50, 100 :: int] \<and> distinct [0, 1 / 2 :: real] \<and> inj_on fmt0 (set [0, 1 / 2])
   \<and> filter is_write (trace (run net_mixed fmt0 ''out'' [0, 1 / 2] [50, 100] w0)) =
       [Write (Path ''out'' ''similarity_matrix_qcov50_threshold_0.0.csv'') ''a,b'',
        Write (Path ''out'' ''similarity_matrix_qcov100_threshold_0.0.csv'') ''a,b'',
        Write (Path ''out'' ''similarity_sdf_threshold_0.0.tar.gz'') ''a,b'']
   \<and> fs (run net_mixed fmt0 ''out'' [0, 1 / 2] [50, 100] w0)
       (Path ''out'' ''similarity_matrix_qcov100_threshold_0.0.csv'') = Some ''a,b''
   \<and> fs (run net_mixed fmt0 ''out'' [0, 1 / 2] [50, 100] w0)
       (Path ''out'' ''similarity_matrix_qcov100_threshold_0.5.csv'') = None"
    using
      C7_one_file_per_task [where net = net_twice and w = w0 and c = "bulk_client ''out''"
        and t = 0 and q = 50 and sc = 200 and body = "''old''" and fmt = fmt0 and ?sc2.0 = 200
        and ?body2.0 = "''new''"]
      C7_one_file_per_task [where net = net_ok and w = w0 and c = "bulk_client ''out''"
        and t = "7 / 10" and q = 100 and sc = 200 and body = "''a,b''" and fmt = fmt0]
      C7_one_file_per_task [where fmt = fmt0 and c = "bulk_client ''out''" and t = "1 / 10"
        and q = 95 and t' = "1 / 10" and q' = 70]
      C7_one_file_per_task [where fmt = fmt0 and c = "bulk_client ''out''" and t = "1 / 10"
        and q = 95 and t' = "9 / 10" and q' = 95]
      C7_one_file_per_task [where net = net_mixed and w = w0 and fmt = fmt0 and dir = "''out''"
        and ths = "[0, 1 / 2]" and qs = "[50, 100]"]
    by (simp add: net_twice_def net_ok_def net_mixed_def is_200_def w0_def bulk_client_def
        fmt0_def csv_filepath_def sdf_filepath_def str_int_def digits.simps digit_char_def
        Let_def matrix_files_def archive_files_def write_of_def csv_request_def sdf_request_def)
  have inj: "inj_on fmt0 (set [0.0, 0.1, 0.3, 0.5, 0.7, 0.9])"
    by (simp add: inj_on_def fmt0_def)
  have full: "is_200 (net_ok (nreq w0) main_probe)
     \<and> distinct [50, 70, 95, 100 :: int] \<and> distinct [0.0, 0.1, 0.3, 0.5, 0.7, 0.9 :: real]
     \<and> length (filter is_write (trace (run net_ok fmt0 ''./platevs_full_dataset''
          [0.0, 0.1, 0.3, 0.5, 0.7, 0.9] [50, 70, 95, 100] w0))) = 30
     \<and> distinct (write_paths (filter is_write (trace (run net_ok fmt0 ''./platevs_full_dataset''
          [0.0, 0.1, 0.3, 0.5, 0.7, 0.9] [50, 70, 95, 100] w0))))"
    using inj
      C7_one_file_per_task [where net = net_ok and w = w0 and fmt = fmt0
        and dir = "''./platevs_full_dataset''" and ths = "[0.0, 0.1, 0.3, 0.5, 0.7, 0.9]"
        and qs = "[50, 70, 95, 100]"]
    by (simp add: Let_def is_200_def net_ok_def w0_def csv_succeeded_def sdf_succeeded_def
        matrix_requests_def archive_requests_def fetch_ok_def)
  show ?thesis using small inj full by simp
qed

text \<open>
  Claim C8. Every matrix-CSV task, whatever its outcome, is a request followed by a sleep
  of 0.5 seconds, and every archive task is a request followed by a sleep of 1 second,
  which is longer. The requests and sleeps of a run that passed the check are the two
  probes, then the matrix tasks and then the archive tasks, each with its pause: the run
  sleeps nowhere else, and the durations are the same for every behaviour of the server.
\<close>

theorem C8_fixed_pauses:
  "filter paced (trace (snd (csv_task net fmt c q t cw))) =
     filter paced (trace (snd cw)) @ [Get (csv_request c t q), Sleep (1 / 2)]
   \<and> filter paced (trace (snd (sdf_task net fmt c t cw))) =
       filter paced (trace (snd cw)) @ [Get (sdf_request c t), Sleep 1]
   \<and> (1 / 2 :: real) < 1
   \<and> (is_200 (net (nreq w) main_probe) \<longrightarrow>
       filter paced (trace (run net fmt dir ths qs w)) =
         filter paced (trace w) @ [Get main_probe, Get api_probe]
           @ concat (map (\<lambda>(q, t). [Get (csv_request (bulk_client dir) t q), Sleep (1 / 2)])
               (List.product qs ths))
           @ concat (map (\<lambda>t. [Get (sdf_request (bulk_client dir) t), Sleep 1]) ths)
       \<and> sleeps_of (trace (run net fmt dir ths qs w)) =
           sleeps_of (trace w) @ replicate (length qs * length ths) (1 / 2)
             @ replicate (length ths) 1)"
  by (simp add: csv_task_paced sdf_task_paced run_proceed_paced run_sleeps)

theorem C8_fixed_pauses_witness:
  "is_200 (net_mixed (nreq w0) main_probe)
   \<and> filter paced (trace (run net_mixed fmt0 ''out'' [0, 1 / 2] [50, 100] w0)) =
       [Get main_probe, Get api_probe,
        Get (csv_request (bulk_client ''out'') 0 50), Sleep (1 / 2),
        Get (csv_request (bulk_client ''out'') (1 / 2) 50), Sleep (1 / 2),
        Get (csv_request (bulk_client ''out'') 0 100), Sleep (1 / 2),
        Get (csv_request (bulk_client ''out'') (1 / 2) 100), Sleep (1 / 2),
        Get (sdf_request (bulk_client ''out'') 0), Sleep 1,
        Get (sdf_request (bulk_client ''out'') (1 / 2)), Sleep 1]
   \<and> sleeps_of (trace (run net_mixed fmt0 ''out'' [0, 1 / 2] [50, 100] w0)) =
       [1 / 2, 1 / 2, 1 / 2, 1 / 2, 1, 1]"
  using C8_fixed_pauses [of net_mixed fmt0 "bulk_client ''out''" 50 0 "(0, w0)" w0 "''out''"
      "[0, 1 / 2]" "[50, 100]"]
  by (simp add: is_200_def net_mixed_def w0_def numeral_eq_Suc)

text \<open>
  Claim C9. For a coverage level that is not one of 50, 70, 95 and 100 the download prints
  the warning and then does what it does for a standard level: it issues the request,
  which carries the level as given, and returns the written path when the fetch succeeds.
\<close>

theorem C9_nonstandard_qcov_only_warns:
  assumes "q \<notin> {50, 70, 95, 100}"
  shows "trace (snd (download_similarity_matrix_csv net fmt c t q w)) =
       trace w @ [Print (WarnQcov q [50, 70, 95, 100]), Get (csv_request c t q)]
         @ (case net (nreq w) (csv_request c t q) of
              Raised e \<Rightarrow> [Print (ErrorCsv e)]
            | Response sc body \<Rightarrow>
                if 400 \<le> sc \<and> sc < 600 then [Print (ErrorCsv (HTTPError sc))]
                else [Write (csv_filepath fmt c t q) body,
                      Print (DownloadedCsv (csv_filepath fmt c t q))])
     \<and> params (csv_request c t q) = [(''threshold'', PFloat t), (''qcov_level'', PInt q)]
     \<and> fst (download_similarity_matrix_csv net fmt c t q w) =
         (if fetch_ok (net (nreq w) (csv_request c t q)) then Some (csv_filepath fmt c t q)
          else None)"
  using assms by (simp add: csv_trace csv_result QCOV_LEVELS_def csv_request_def)

theorem C9_nonstandard_qcov_only_warns_witness:
  "(42::int) \<notin> {50, 70, 95, 100}
   \<and> trace (snd (download_similarity_matrix_csv net_ok fmt0 (bulk_client ''out'') 0 42 w0)) =
       [Print (WarnQcov 42 [50, 70, 95, 100]), Get (csv_request (bulk_client ''out'') 0 42),
        Write (csv_filepath fmt0 (bulk_client ''out'') 0 42) ''a,b'',
        Print (DownloadedCsv (csv_filepath fmt0 (bulk_client ''out'') 0 42))]
   \<and> fst (download_similarity_matrix_csv net_ok fmt0 (bulk_client ''out'') 0 42 w0) =
       Some (csv_filepath fmt0 (bulk_client ''out'') 0 42)"
  using C9_nonstandard_qcov_only_warns [of 42 net_ok fmt0 "bulk_client ''out''" 0 w0]
  by (simp add: net_ok_def w0_def fetch_ok_def)

text \<open>
  Claim C10. \<^verbatim>\<open>check_service_status\<close> always returns a dictionary with exactly the
  keys \<^verbatim>\<open>'main'\<close> and \<^verbatim>\<open>'api'\<close>; an entry is \<^verbatim>\<open>True\<close> when the probe's response has
  status 200 and \<^verbatim>\<open>False\<close> otherwise, in particular when the probe raised. The run looks
  at the entry \<^verbatim>\<open>'main'\<close> only: when it is \<^verbatim>\<open>True\<close> and the entry \<^verbatim>\<open>'api'\<close> is
  \<^verbatim>\<open>False\<close>, the run still issues the request of every task.
\<close>

theorem C10_status_check_total:
  "fst (check_service_status net w) =
     [''main'' \<mapsto> is_200 (net (nreq w) main_probe),
      ''api'' \<mapsto> is_200 (net (Suc (nreq w)) api_probe)]
   \<and> dom (fst (check_service_status net w)) = {''main'', ''api''}
   \<and> (net (nreq w) main_probe = Raised e \<longrightarrow>
        fst (check_service_status net w) ''main'' = Some False)
   \<and> (net (Suc (nreq w)) api_probe = Raised e' \<longrightarrow>
        fst (check_service_status net w) ''api'' = Some False)
   \<and> (is_200 (net (nreq w) main_probe) \<and> \<not> is_200 (net (Suc (nreq w)) api_probe) \<longrightarrow>
        fst (check_service_status net w) ''main'' = Some True
        \<and> fst (check_service_status net w) ''api'' = Some False
        \<and> requests_of (trace (run net fmt dir ths qs w)) =
            requests_of (trace w) @ [main_probe, api_probe]
              @ matrix_requests (bulk_client dir) qs ths
              @ archive_requests (bulk_client dir) ths)"
  by (simp add: check_status_result run_requests is_200_def insert_commute)

theorem C10_status_check_total_witness:
  "net_down (nreq w0) main_probe = Raised ConnectionError
   \<and> net_down (Suc (nreq w0)) api_probe = Raised ConnectionError
   \<and> fst (check_service_status net_down w0) ''main'' = Some False
   \<and> fst (check_service_status net_down w0) ''api'' = Some False
   \<and> is_200 (net_api_down (nreq w0) main_probe)
   \<and> \<not> is_200 (net_api_down (Suc (nreq w0)) api_probe)
   \<and> fst (check_service_status net_api_down w0) ''main'' = Some True
   \<and> fst (check_service_status net_api_down w0) ''api'' = Some False
   \<and> requests_of (trace (run net_api_down fmt0 ''out'' [0, 1 / 2] [50] w0)) =
       [main_probe, api_probe,
        csv_request (bulk_client ''out'') 0 50, csv_request (bulk_client ''out'') (1 / 2) 50,
        sdf_request (bulk_client ''out'') 0, sdf_request (bulk_client ''out'') (1 / 2)]"
  using C10_status_check_total [of net_down w0 ConnectionError ConnectionError fmt0 "''out''"
      "[0, 1 / 2]" "[50]"]
    C10_status_check_total [of net_api_down w0 ConnectionError ConnectionError fmt0 "''out''"
      "[0, 1 / 2]" "[50]"]
  by (simp add: is_200_def net_down_def net_api_down_def w0_def matrix_requests_def
      archive_requests_def)

end
